theory Spec2Isabelle
  imports Complex_Main "HOL-Library.Sublist"
begin

section \<open>Conventions\<close>

text \<open>
  A Python \<open>str\<close> is modelled as \<^typ>\<open>string\<close>; every \<^typ>\<open>char\<close> stands for one code
  point below 256.  A Python \<open>float\<close> is modelled as a \<^typ>\<open>real\<close>: the arithmetic of
  the source (\<open>/ 1000.0\<close>, \<open>*\<close>, \<open>+\<close>, \<open>-\<close>, \<open>min\<close>, \<open>max\<close>) is read as exact
  arithmetic.  A Python \<open>dict\<close> whose iteration order matters is an association list
  in insertion order.  An exception of class \<open>Exception\<close> is a value of type \<open>exn\<close>;
  exceptions outside that class (a keyboard interrupt, an exit) are not modelled.
\<close>

section \<open>ingest/common.py: the backoff sequence\<close>

text \<open>
  \<^verbatim>\<open>
  def backoff_sequence(max_tries=3, base=1.0, cap=16.0, factor=2.0):
      delay = base
      for _ in range(max_tries):
          yield min(delay, cap)
          delay = min(delay * factor, cap)
  \<close>
  The generator is the list of the values it yields; \<open>backoff_loop n delay\<close> is the
  loop with \<open>n\<close> iterations left and the current value of \<open>delay\<close>.
  \<open>range(max_tries)\<close> is empty for a negative \<open>max_tries\<close>.
\<close>

fun backoff_loop :: "nat \<Rightarrow> real \<Rightarrow> real \<Rightarrow> real \<Rightarrow> real list" where
  "backoff_loop 0 delay cap factor = []"
| "backoff_loop (Suc n) delay cap factor =
     min delay cap # backoff_loop n (min (delay * factor) cap) cap factor"

definition backoff_sequence :: "int \<Rightarrow> real \<Rightarrow> real \<Rightarrow> real \<Rightarrow> real list" where
  "backoff_sequence max_tries base cap factor = backoff_loop (nat max_tries) base cap factor"

section \<open>ingest/p04\_fetch\_subtitles.py: language selection\<close>

definition startswith :: "string \<Rightarrow> string \<Rightarrow> bool" where
  "startswith s p = prefix p s"

definition endswith :: "string \<Rightarrow> string \<Rightarrow> bool" where
  "endswith s p = suffix p s"

text \<open>
  \<^verbatim>\<open>
  def best_lang_key(available, pref, fb):
      order = [pref, f"{pref}-", f"a.{pref}", fb, f"{fb}-", f"a.{fb}"]
      keys = list(available.keys())
      for pat in order:
          if pat.endswith("-"):
              for k in keys:
                  if k.startswith(pat):
                      return k
          else:
              if pat in available:
                  return pat
      return None
  \<close>
  \<open>try_patterns\<close> is the outer loop over \<open>order\<close>; the inner loop over \<open>keys\<close> is
  \<^const>\<open>find\<close>.
\<close>

fun try_patterns :: "string list \<Rightarrow> string list \<Rightarrow> string option" where
  "try_patterns [] keys = None"
| "try_patterns (pat # pats) keys =
     (if endswith pat ''-'' then
        (case find (\<lambda>k. startswith k pat) keys of
           Some k \<Rightarrow> Some k
         | None \<Rightarrow> try_patterns pats keys)
      else if pat \<in> set keys then Some pat
      else try_patterns pats keys)"

definition best_lang_key :: "(string \<times> 'v) list \<Rightarrow> string \<Rightarrow> string \<Rightarrow> string option" where
  "best_lang_key available pref fb =
     try_patterns [pref, pref @ ''-'', ''a.'' @ pref, fb, fb @ ''-'', ''a.'' @ fb]
       (map fst available)"

text \<open>
  The selection order as the specification words it: for one code, the exact key,
  then the first key starting with the code and a hyphen, then the exact key with
  the prefix \<open>a.\<close>; the three checks for the preferred code, then for the fallback.
\<close>

definition spec_three_checks :: "string \<Rightarrow> string list \<Rightarrow> string option" where
  "spec_three_checks code keys =
     (if code \<in> set keys then Some code
      else case find (prefix (code @ ''-'')) keys of
             Some k \<Rightarrow> Some k
           | None \<Rightarrow> if (''a.'' @ code) \<in> set keys then Some (''a.'' @ code) else None)"

definition spec_best_lang_key :: "(string \<times> 'v) list \<Rightarrow> string \<Rightarrow> string \<Rightarrow> string option" where
  "spec_best_lang_key available pref fb =
     (case spec_three_checks pref (map fst available) of
        Some k \<Rightarrow> Some k
      | None \<Rightarrow> spec_three_checks fb (map fst available))"

section \<open>String operations of the Python library\<close>

text \<open>
  \<open>str.isspace\<close> on the code points below 256: the characters that \<open>strip()\<close>,
  \<open>rstrip()\<close> and the pattern \<open>\s\<close> treat as whitespace.
\<close>

definition isspace :: "char \<Rightarrow> bool" where
  "isspace c = (c \<in> set [CHR 0x09, CHR 0x0A, CHR 0x0B, CHR 0x0C, CHR 0x0D,
                          CHR 0x1C, CHR 0x1D, CHR 0x1E, CHR 0x1F, CHR 0x20,
                          CHR 0x85, CHR 0xA0])"

definition lstrip :: "string \<Rightarrow> string" where
  "lstrip s = dropWhile isspace s"

definition rstrip :: "string \<Rightarrow> string" where
  "rstrip s = rev (dropWhile isspace (rev s))"

definition strip :: "string \<Rightarrow> string" where
  "strip s = rstrip (lstrip s)"

text \<open>\<open>s.strip(chars)\<close>: characters of \<open>chars\<close> are removed from both ends.\<close>

definition strip_chars :: "string \<Rightarrow> string \<Rightarrow> string" where
  "strip_chars s chars =
     rev (dropWhile (\<lambda>c. c \<in> set chars) (rev (dropWhile (\<lambda>c. c \<in> set chars) s)))"

text \<open>\<open>s.replace("\n", " ")\<close>.\<close>

definition replace_nl :: "string \<Rightarrow> string" where
  "replace_nl s = map (\<lambda>c. if c = CHR 0x0A then CHR '' '' else c) s"

text \<open>\<open>" ".join(xs)\<close>.\<close>

fun join_sp :: "string list \<Rightarrow> string" where
  "join_sp [] = []"
| "join_sp [x] = x"
| "join_sp (x # y # ys) = x @ CHR '' '' # join_sp (y # ys)"

text \<open>\<open>p in s\<close> for strings: \<open>p\<close> occurs in \<open>s\<close> as a contiguous piece.\<close>

fun contains :: "string \<Rightarrow> string \<Rightarrow> bool" where
  "contains [] p = (p = [])"
| "contains (c # cs) p = (prefix p (c # cs) \<or> contains cs p)"

text \<open>
  \<open>str.splitlines()\<close> on the code points below 256.  A line ends at \<open>\n\<close>, \<open>\r\<close>,
  \<open>\r\n\<close>, \<open>\x0b\<close>, \<open>\x0c\<close>, \<open>\x1c\<close>, \<open>\x1d\<close>, \<open>\x1e\<close> or \<open>\x85\<close>; the line ends
  are not kept and a final line end opens no further line.  \<open>cur\<close> is the line read
  so far.
\<close>

definition is_linebreak :: "char \<Rightarrow> bool" where
  "is_linebreak c = (c \<in> set [CHR 0x0A, CHR 0x0B, CHR 0x0C, CHR 0x0D,
                               CHR 0x1C, CHR 0x1D, CHR 0x1E, CHR 0x85])"

fun splitlines_from :: "string \<Rightarrow> string \<Rightarrow> string list" where
  "splitlines_from cur [] = (if cur = [] then [] else [cur])"
| "splitlines_from cur [c] = (if is_linebreak c then [cur] else [cur @ [c]])"
| "splitlines_from cur (c # d # cs) =
     (if c = CHR 0x0D \<and> d = CHR 0x0A then cur # splitlines_from [] cs
      else if is_linebreak c then cur # splitlines_from [] (d # cs)
      else splitlines_from (cur @ [c]) (d # cs))"

definition splitlines :: "string \<Rightarrow> string list" where
  "splitlines s = splitlines_from [] s"

section \<open>ingest/p04\_fetch\_subtitles.py: the structured-event parser\<close>

text \<open>
  Exceptions: \<open>requests.RequestException\<close> and its subclasses, and every other
  subclass of \<open>Exception\<close>; the string names the exception.
\<close>

datatype exn = RequestException string | OtherException string

text \<open>
  A decoded JSON3 document.  An event is a JSON object with the optional entries
  \<open>segs\<close> (a list of objects with an optional \<open>utf8\<close> string), \<open>tStartMs\<close> and
  \<open>dDurationMs\<close> (numbers); \<open>None\<close> is an absent entry.  \<open>Object evs\<close> is a non-empty
  JSON object with its \<open>events\<close> entry, if any, and \<open>Empty_object\<close> is \<open>{}\<close>.  \<open>Falsy\<close>
  is any other decoded value that Python takes for false (\<open>None\<close>, \<open>0\<close>, \<open>""\<close>,
  \<open>[]\<close>), and \<open>NotAnObject\<close> any other value that is not an object (a non-empty
  string or list, a number): it has no method \<open>get\<close>.
\<close>

record fragment =
  utf8 :: "string option"

record event =
  segs :: "fragment list option"
  tStartMs :: "real option"
  dDurationMs :: "real option"

datatype json3 = Falsy | Empty_object | NotAnObject | Object "event list option"

text \<open>A segment as both parsers emit it: \<open>{"idx", "start_sec", "dur_sec", "text"}\<close>.\<close>

record segment =
  idx :: nat
  start_sec :: real
  dur_sec :: real
  seg_text :: string

text \<open>
  \<^verbatim>\<open>
  def parse_json3_events(json3_obj):
      segs, full = [], []
      idx = 0
      for ev in (json3_obj or {}).get("events", []):
          seg_list = ev.get("segs") or []
          if not seg_list:
              continue
          text = "".join(s.get("utf8", "") for s in seg_list).replace("\n", " ").strip()
          if not text:
              continue
          start = ev.get("tStartMs", 0) / 1000.0
          dur = ev.get("dDurationMs", 0) / 1000.0
          segs.append((idx, start, dur, text))
          idx += 1
          full.append(text)
      return ([{"idx": i, "start_sec": st, "dur_sec": du, "text": tx} for ... in segs],
              " ".join(full))
  \<close>
  \<open>json3_loop\<close> is the \<open>for\<close> loop over the events, on the state \<open>(idx, segs, full)\<close>.
\<close>

definition seg_list_of :: "event \<Rightarrow> fragment list" where
  "seg_list_of ev = (case segs ev of None \<Rightarrow> [] | Some l \<Rightarrow> l)"

definition event_text :: "event \<Rightarrow> string" where
  "event_text ev =
     strip (replace_nl (concat (map (\<lambda>s. case utf8 s of None \<Rightarrow> [] | Some t \<Rightarrow> t)
                                    (seg_list_of ev))))"

definition ms_field :: "real option \<Rightarrow> real" where
  "ms_field v = (case v of None \<Rightarrow> 0 | Some ms \<Rightarrow> ms)"

fun json3_loop ::
  "event list \<Rightarrow> nat \<times> segment list \<times> string list \<Rightarrow> nat \<times> segment list \<times> string list"
where
  "json3_loop [] st = st"
| "json3_loop (ev # evs) (i, sgs, full) =
     (if seg_list_of ev = [] then json3_loop evs (i, sgs, full)
      else if event_text ev = [] then json3_loop evs (i, sgs, full)
      else json3_loop evs
             (Suc i,
              sgs @ [\<lparr>idx = i, start_sec = ms_field (tStartMs ev) / 1000,
                      dur_sec = ms_field (dDurationMs ev) / 1000, seg_text = event_text ev\<rparr>],
              full @ [event_text ev]))"

definition parse_events :: "event list \<Rightarrow> segment list \<times> string" where
  "parse_events evs =
     (case json3_loop evs (0, [], []) of (i, sgs, full) \<Rightarrow> (sgs, join_sp full))"

definition parse_json3_events :: "json3 \<Rightarrow> exn + segment list \<times> string" where
  "parse_json3_events json3_obj =
     (case json3_obj of
        Falsy \<Rightarrow> Inr (parse_events [])
      | Empty_object \<Rightarrow> Inr (parse_events [])
      | NotAnObject \<Rightarrow> Inl (OtherException ''AttributeError'')
      | Object None \<Rightarrow> Inr (parse_events [])
      | Object (Some evs) \<Rightarrow> Inr (parse_events evs))"

section \<open>ingest/p04\_fetch\_subtitles.py: the cue parser\<close>

text \<open>
  The pattern \<open>_VTT_TS\<close>,
  \<^verbatim>\<open>^(\d{2}):(\d{2}):(\d{2}\.\d{3})\s-->\s(\d{2}):(\d{2}):(\d{2}\.\d{3})\<close>,
  is anchored at the start of the line, so \<open>search\<close> matches the first 29 characters
  against a fixed sequence of character classes.  Below code point 256 the class
  \<open>\d\<close> is \<open>0\<close> to \<open>9\<close> and \<open>\s\<close> is \<^const>\<open>isspace\<close>.
\<close>

datatype char_class = Digit | Space | Lit char

definition isdigit :: "char \<Rightarrow> bool" where
  "isdigit c = (48 \<le> (of_char c :: nat) \<and> (of_char c :: nat) \<le> 57)"

fun in_class :: "char_class \<Rightarrow> char \<Rightarrow> bool" where
  "in_class Digit c = isdigit c"
| "in_class Space c = isspace c"
| "in_class (Lit l) c = (c = l)"

fun match_classes :: "char_class list \<Rightarrow> string \<Rightarrow> bool" where
  "match_classes [] s = True"
| "match_classes (k # ks) [] = False"
| "match_classes (k # ks) (c # cs) = (in_class k c \<and> match_classes ks cs)"

definition hms_classes :: "char_class list" where
  "hms_classes = [Digit, Digit, Lit CHR '':'', Digit, Digit, Lit CHR '':'',
                  Digit, Digit, Lit CHR ''.'', Digit, Digit, Digit]"

definition VTT_TS_classes :: "char_class list" where
  "VTT_TS_classes =
     hms_classes @ [Space, Lit CHR ''-'', Lit CHR ''-'', Lit CHR ''>'', Space] @ hms_classes"

text \<open>The six groups \<open>h\<close>, \<open>m\<close>, \<open>s\<close>, \<open>h2\<close>, \<open>m2\<close>, \<open>s2\<close> of a match.\<close>

definition VTT_TS_search ::
  "string \<Rightarrow> (string \<times> string \<times> string \<times> string \<times> string \<times> string) option" where
  "VTT_TS_search line =
     (if match_classes VTT_TS_classes line
      then Some (take 2 line, take 2 (drop 3 line), take 6 (drop 6 line),
                 take 2 (drop 17 line), take 2 (drop 20 line), take 6 (drop 23 line))
      else None)"

text \<open>
  \<open>int(h)\<close> on a string of decimal digits, and \<open>float(s_str)\<close> on a string
  \<open>dd.ddd\<close>.
\<close>

definition digit_val :: "char \<Rightarrow> nat" where
  "digit_val c = of_char c - 48"

definition int_of_digits :: "string \<Rightarrow> nat" where
  "int_of_digits s = foldl (\<lambda>n c. 10 * n + digit_val c) 0 s"

definition float_of_sec :: "string \<Rightarrow> real" where
  "float_of_sec s_str =
     real (int_of_digits (take 2 s_str)) + real (int_of_digits (drop 3 s_str)) / 1000"

text \<open>
  \<^verbatim>\<open>
  def _hms_to_sec(h, m, s_str):
      s = float(s_str)
      return int(h) * 3600 + int(m) * 60 + s
  \<close>
\<close>

definition hms_to_sec :: "string \<Rightarrow> string \<Rightarrow> string \<Rightarrow> real" where
  "hms_to_sec h m s_str =
     real (int_of_digits h * 3600 + int_of_digits m * 60) + float_of_sec s_str"

text \<open>
  \<^verbatim>\<open>
  def parse_webvtt(vtt_text):
      lines = [ln.strip("\ufeff ").rstrip() for ln in vtt_text.splitlines()]
      segs, full = [], []
      idx = 0
      i = 0
      while i < len(lines):
          ln = lines[i]
          if "-->" in ln:
              m = _VTT_TS.search(ln)
              if m:
                  start = _hms_to_sec(m.group("h"), m.group("m"), m.group("s"))
                  end = _hms_to_sec(m.group("h2"), m.group("m2"), m.group("s2"))
                  i += 1
                  text_lines = []
                  while i < len(lines) and lines[i] and "-->" not in lines[i]:
                      if not lines[i].startswith("NOTE"):
                          text_lines.append(lines[i])
                      i += 1
                  text = " ".join(text_lines).replace("\n", " ").strip()
                  if text:
                      segs.append({"idx": idx, "start_sec": start,
                                   "dur_sec": max(0.0, end - start), "text": text})
                      idx += 1
                      full.append(text)
                  continue
          i += 1
      return segs, " ".join(full)
  \<close>
  The position \<open>i\<close> is the list of the lines not yet read.  \<open>cue_body\<close> is the inner
  loop: it returns \<open>text_lines\<close> and the lines left.  \<open>vtt_loop\<close> is the outer loop on
  the state \<open>(idx, segs, full)\<close>.  The byte-order mark U+FEFF is no code point below
  256, so \<open>strip("\ufeff ")\<close> removes spaces here.
\<close>

definition clean_line :: "string \<Rightarrow> string" where
  "clean_line line = rstrip (strip_chars line '' '')"

fun cue_body :: "string list \<Rightarrow> string list \<Rightarrow> string list \<times> string list" where
  "cue_body text_lines [] = (text_lines, [])"
| "cue_body text_lines (l # ls) =
     (if l \<noteq> [] \<and> \<not> contains l ''-->''
      then cue_body (if \<not> startswith l ''NOTE'' then text_lines @ [l] else text_lines) ls
      else (text_lines, l # ls))"

definition cue_text :: "string list \<Rightarrow> string" where
  "cue_text text_lines = strip (replace_nl (join_sp text_lines))"

function vtt_loop ::
  "string list \<Rightarrow> nat \<times> segment list \<times> string list \<Rightarrow> nat \<times> segment list \<times> string list"
where
  "vtt_loop [] st = st"
| "vtt_loop (line # rest) (i, sgs, full) =
     (if contains line ''-->'' then
        (case VTT_TS_search line of
           Some (h, m, s, h2, m2, s2) \<Rightarrow>
             (let start = hms_to_sec h m s;
                  end_sec = hms_to_sec h2 m2 s2;
                  text = cue_text (fst (cue_body [] rest))
              in if text \<noteq> []
                 then vtt_loop (snd (cue_body [] rest))
                        (Suc i,
                         sgs @ [\<lparr>idx = i, start_sec = start,
                                 dur_sec = max 0 (end_sec - start), seg_text = text\<rparr>],
                         full @ [text])
                 else vtt_loop (snd (cue_body [] rest)) (i, sgs, full))
         | None \<Rightarrow> vtt_loop rest (i, sgs, full))
      else vtt_loop rest (i, sgs, full))"
  by pat_completeness auto
termination
proof -
  have body: "length (snd (cue_body acc ls)) \<le> length ls" for acc ls
    by (induction ls arbitrary: acc) (auto intro: le_SucI)
  show ?thesis
    by (relation "measure (\<lambda>(lines, st). length lines)")
       (auto simp: less_Suc_eq_le body)
qed

definition parse_webvtt :: "string \<Rightarrow> segment list \<times> string" where
  "parse_webvtt vtt_text =
     (case vtt_loop (map clean_line (splitlines vtt_text)) (0, [], []) of
        (i, sgs, full) \<Rightarrow> (sgs, join_sp full))"

section \<open>ingest/p04\_fetch\_subtitles.py: acquisition for one video\<close>

text \<open>
  What the extraction backend returns.  \<open>requested_subtitles\<close> maps a language key
  to an entry with an optional inline payload \<open>data\<close>; \<open>subtitles\<close> and
  \<open>automatic_captions\<close> map a language key to a list of tracks, each with an optional
  \<open>ext\<close> and \<open>url\<close>.  \<open>None\<close> is an absent entry (or the value \<open>None\<close>).
\<close>

record sub_entry =
  data :: "json3 option"

record track =
  ext :: "string option"
  url :: "string option"

record info =
  requested_subtitles :: "(string \<times> sub_entry) list option"
  subtitles :: "(string \<times> track list) list option"
  automatic_captions :: "(string \<times> track list) list option"

text \<open>
  The options handed to \<open>YoutubeDL\<close>: those of the first attempt, with
  \<open>subtitlesformat = json3\<close> and the list \<open>subtitleslangs\<close>, and those of the second;
  both with the cookie file, if one is given and exists.
\<close>

datatype ydl_opts = Json3_opts "string list" "string option" | Plain_opts "string option"

record response =
  status_code :: nat
  body :: string

text \<open>
  The world outside the program: the extraction backend, the HTTP session, the
  file system, the JSON decoder and the clock.  A call takes the state of the
  world and returns the new one; \<open>Inl\<close> is a raised exception.  Nothing is assumed of
  these operations.
\<close>

record 'w backend =
  extract_info :: "ydl_opts \<Rightarrow> string \<Rightarrow> 'w \<Rightarrow> (exn + info option) \<times> 'w"
  session_get :: "string \<Rightarrow> 'w \<Rightarrow> (exn + response) \<times> 'w"
  path_exists :: "string \<Rightarrow> 'w \<Rightarrow> bool"
  json_loads :: "string \<Rightarrow> exn + json3"
  jitter_sleep :: "real \<Rightarrow> real \<Rightarrow> 'w \<Rightarrow> 'w"

text \<open>The rows written out: a segment with \<open>video_id\<close> and \<open>lang\<close>, and the full text.\<close>

record seg_row = segment +
  video_id :: string
  lang :: string

record full_row =
  full_video_id :: string
  full_lang :: string
  full_text :: string

type_synonym subs_result = "seg_row list \<times> full_row option"

text \<open>
  \<^verbatim>\<open>
  def download_text(url, session, timeout=30):
      for delay in backoff_sequence():
          try:
              r = session.get(url, timeout=timeout)
              if r.status_code in (429, 500, 503):
                  jitter_sleep(delay, 0.5)
                  continue
              r.raise_for_status()
              return r.text
          except requests.RequestException:
              jitter_sleep(delay, 0.5)
      return None
  \<close>
  \<open>raise_for_status\<close> raises \<open>HTTPError\<close>, a \<open>RequestException\<close>, on a status from 400
  to 599.  An exception that is no \<open>RequestException\<close> leaves the function.
\<close>

fun download_loop ::
  "'w backend \<Rightarrow> string \<Rightarrow> real list \<Rightarrow> 'w \<Rightarrow> (exn + string option) \<times> 'w" where
  "download_loop b u [] w = (Inr None, w)"
| "download_loop b u (delay # delays) w =
     (case session_get b u w of
        (Inl (RequestException msg), w1) \<Rightarrow>
          download_loop b u delays (jitter_sleep b delay 0.5 w1)
      | (Inl (OtherException msg), w1) \<Rightarrow> (Inl (OtherException msg), w1)
      | (Inr r, w1) \<Rightarrow>
          if status_code r \<in> {429, 500, 503}
          then download_loop b u delays (jitter_sleep b delay 0.5 w1)
          else if 400 \<le> status_code r \<and> status_code r < 600
          then download_loop b u delays (jitter_sleep b delay 0.5 w1)
          else (Inr (Some (body r)), w1))"

definition download_text :: "'w backend \<Rightarrow> string \<Rightarrow> 'w \<Rightarrow> (exn + string option) \<times> 'w" where
  "download_text b u w = download_loop b u (backoff_sequence 3 1 16 2) w"

text \<open>
  \<open>best_lang_key(d, pref, fb) or (list(d.keys())[0] if d else None)\<close>: an empty key is
  false for \<open>or\<close>.
\<close>

definition first_key :: "(string \<times> 'v) list \<Rightarrow> string option" where
  "first_key d = (case d of [] \<Rightarrow> None | (k, v) # rest \<Rightarrow> Some k)"

definition pick_key :: "(string \<times> 'v) list \<Rightarrow> string \<Rightarrow> string \<Rightarrow> string option" where
  "pick_key d pref fb =
     (case best_lang_key d pref fb of
        Some k \<Rightarrow> if k \<noteq> [] then Some k else first_key d
      | None \<Rightarrow> first_key d)"

text \<open>
  \<open>segments = [dict(video_id=vid, lang=k, **e) for e in evs]\<close> and
  \<open>full = dict(video_id=vid, lang=k, full_text=full_text[:1_000_000])\<close>.
\<close>

definition make_rows :: "string \<Rightarrow> string \<Rightarrow> segment list \<Rightarrow> string \<Rightarrow> subs_result" where
  "make_rows vid k evs ftext =
     (map (\<lambda>e. \<lparr>idx = idx e, start_sec = start_sec e, dur_sec = dur_sec e,
                 seg_text = seg_text e, video_id = vid, lang = k\<rparr>) evs,
      Some \<lparr>full_video_id = vid, full_lang = k, full_text = take 1000000 ftext\<rparr>)"

definition watch_url :: "string \<Rightarrow> string" where
  "watch_url vid = ''https://www.youtube.com/watch?v='' @ vid"

definition cookiefile :: "'w backend \<Rightarrow> string option \<Rightarrow> 'w \<Rightarrow> string option" where
  "cookiefile b cookies_path w =
     (case cookies_path of
        None \<Rightarrow> None
      | Some p \<Rightarrow> if p \<noteq> [] \<and> path_exists b p w then Some p else None)"

text \<open>
  The body of the first \<open>try\<close> block of \<open>fetch_subs_for_video\<close> (source lines
  160 to 191).  \<open>Inr (Some r)\<close>: the block returns \<open>r\<close>; \<open>Inr None\<close>: it ends without
  returning; \<open>Inl e\<close>: it raises \<open>e\<close>.
  \<^verbatim>\<open>
      with YoutubeDL(ydl_opts) as ydl:
          info = ydl.extract_info(f"https://www.youtube.com/watch?v={vid}", download=False)
      rs = (info or {}).get("requested_subtitles") or {}
      if rs:
          k = best_lang_key(rs, pref, fb) or (list(rs.keys())[0] if rs else None)
          data = k and rs[k].get("data")
          if data:
              evs, full_text = parse_json3_events(data)
              if evs:
                  segments = [dict(video_id=vid, lang=k, **e) for e in evs]
                  full = dict(video_id=vid, lang=k, full_text=full_text[:1_000_000])
                  return segments, full
  \<close>
\<close>

definition api_attempt ::
  "'w backend \<Rightarrow> string \<Rightarrow> string \<Rightarrow> string \<Rightarrow> string option \<Rightarrow> 'w
     \<Rightarrow> (exn + subs_result option) \<times> 'w" where
  "api_attempt b vid pref fb cookies_path w =
     (case extract_info b
             (Json3_opts [pref, fb, pref @ ''-'', fb @ ''-'', ''a.'' @ pref, ''a.'' @ fb]
                (cookiefile b cookies_path w))
             (watch_url vid) w of
        (Inl e, w1) \<Rightarrow> (Inl e, w1)
      | (Inr ret, w1) \<Rightarrow>
          (let rs = (case ret of
                       None \<Rightarrow> []
                     | Some i \<Rightarrow> (case requested_subtitles i of None \<Rightarrow> [] | Some r \<Rightarrow> r))
           in if rs = [] then (Inr None, w1)
              else (case pick_key rs pref fb of
                      None \<Rightarrow> (Inr None, w1)
                    | Some k \<Rightarrow>
                        if k = [] then (Inr None, w1)
                        else (case map_of rs k of
                                None \<Rightarrow> (Inl (OtherException ''KeyError''), w1)
                              | Some entry \<Rightarrow>
                                  (case data entry of
                                     None \<Rightarrow> (Inr None, w1)
                                   | Some Falsy \<Rightarrow> (Inr None, w1)
                                   | Some Empty_object \<Rightarrow> (Inr None, w1)
                                   | Some d \<Rightarrow>
                                       (case parse_json3_events d of
                                          Inl e \<Rightarrow> (Inl e, w1)
                                        | Inr (evs, ftext) \<Rightarrow>
                                            if evs \<noteq> []
                                            then (Inr (Some (make_rows vid k evs ftext)), w1)
                                            else (Inr None, w1)))))))"

text \<open>
  \<open>next((e.get("url") for e in entries if e.get("ext") ...), None)\<close>: the \<open>url\<close> of
  the first entry with a fitting \<open>ext\<close>, be it absent.
\<close>

definition first_url :: "(string option \<Rightarrow> bool) \<Rightarrow> track list \<Rightarrow> string option" where
  "first_url fits entries =
     (case find (\<lambda>e. fits (ext e)) entries of None \<Rightarrow> None | Some e \<Rightarrow> url e)"

text \<open>
  Source lines 227 to 240: the structured encoding by URL.  The decoding and the
  parsing have a \<open>try\<close> of their own, whose handler is \<open>pass\<close>; the download has not.
\<close>

definition json3_url_attempt ::
  "'w backend \<Rightarrow> string \<Rightarrow> string \<Rightarrow> string option \<Rightarrow> 'w
     \<Rightarrow> (exn + subs_result option) \<times> 'w" where
  "json3_url_attempt b vid k url_json3 w =
     (case url_json3 of
        None \<Rightarrow> (Inr None, w)
      | Some u \<Rightarrow>
          if u = [] then (Inr None, w)
          else (case download_text b u w of
                  (Inl e, w1) \<Rightarrow> (Inl e, w1)
                | (Inr None, w1) \<Rightarrow> (Inr None, w1)
                | (Inr (Some t), w1) \<Rightarrow>
                    if t = [] then (Inr None, w1)
                    else (case json_loads b t of
                            Inl e \<Rightarrow> (Inr None, w1)
                          | Inr d \<Rightarrow>
                              (case parse_json3_events d of
                                 Inl e \<Rightarrow> (Inr None, w1)
                               | Inr (evs, ftext) \<Rightarrow>
                                   if evs \<noteq> []
                                   then (Inr (Some (make_rows vid k evs ftext)), w1)
                                   else (Inr None, w1)))))"

text \<open>Source lines 242 to 251: the cue encoding by URL.\<close>

definition vtt_url_attempt ::
  "'w backend \<Rightarrow> string \<Rightarrow> string \<Rightarrow> string option \<Rightarrow> 'w
     \<Rightarrow> (exn + subs_result option) \<times> 'w" where
  "vtt_url_attempt b vid k url_vtt w =
     (case url_vtt of
        None \<Rightarrow> (Inr None, w)
      | Some u \<Rightarrow>
          if u = [] then (Inr None, w)
          else (case download_text b u w of
                  (Inl e, w1) \<Rightarrow> (Inl e, w1)
                | (Inr None, w1) \<Rightarrow> (Inr None, w1)
                | (Inr (Some t), w1) \<Rightarrow>
                    if t = [] then (Inr None, w1)
                    else (case parse_webvtt t of
                            (evs, ftext) \<Rightarrow>
                              if evs \<noteq> []
                              then (Inr (Some (make_rows vid k evs ftext)), w1)
                              else (Inr None, w1))))"

text \<open>
  The body of the second \<open>try\<close> block (source lines 198 to 255); it always
  returns or raises.
  \<^verbatim>\<open>
      with YoutubeDL(ydl_opts2) as ydl:
          info = ydl.extract_info(f"https://www.youtube.com/watch?v={vid}", download=False)
      subs = (info or {}).get("subtitles") or {}
      autos = (info or {}).get("automatic_captions") or {}
      pool = subs if subs else autos
      if not pool:
          return [], None
      k = best_lang_key(pool, pref, fb) or (list(pool.keys())[0] if pool else None)
      if not k:
          return [], None
      entries = pool.get(k) or []
      url_json3 = next((e.get("url") for e in entries if e.get("ext") == "json3"), None)
      url_vtt = next((e.get("url") for e in entries
                      if e.get("ext") in ("vtt", "ttml", "srv3", "srv1")), None)
      sess = build_session(cookies_path)
      if url_json3: ...
      if url_vtt: ...
      return [], None
  \<close>
  \<open>build_session\<close> raises nothing (the loading of the cookies has a \<open>try\<close> of its
  own); the session it makes is part of the world.  \<open>try_encodings\<close> is the part
  from \<open>url_json3\<close> on, for the chosen key and its entries.
\<close>

definition try_encodings ::
  "'w backend \<Rightarrow> string \<Rightarrow> string \<Rightarrow> track list \<Rightarrow> 'w \<Rightarrow> (exn + subs_result) \<times> 'w" where
  "try_encodings b vid k entries w =
     (let url_json3 = first_url (\<lambda>x. x = Some ''json3'') entries;
          url_vtt = first_url
            (\<lambda>x. x \<in> {Some ''vtt'', Some ''ttml'', Some ''srv3'', Some ''srv1''}) entries
      in (case json3_url_attempt b vid k url_json3 w of
            (Inl e, w2) \<Rightarrow> (Inl e, w2)
          | (Inr (Some r), w2) \<Rightarrow> (Inr r, w2)
          | (Inr None, w2) \<Rightarrow>
              (case vtt_url_attempt b vid k url_vtt w2 of
                 (Inl e, w3) \<Rightarrow> (Inl e, w3)
               | (Inr (Some r), w3) \<Rightarrow> (Inr r, w3)
               | (Inr None, w3) \<Rightarrow> (Inr ([], None), w3))))"

definition url_attempt ::
  "'w backend \<Rightarrow> string \<Rightarrow> string \<Rightarrow> string \<Rightarrow> string option \<Rightarrow> 'w
     \<Rightarrow> (exn + subs_result) \<times> 'w" where
  "url_attempt b vid pref fb cookies_path w =
     (case extract_info b (Plain_opts (cookiefile b cookies_path w)) (watch_url vid) w of
        (Inl e, w1) \<Rightarrow> (Inl e, w1)
      | (Inr ret, w1) \<Rightarrow>
          (let subs = (case ret of
                         None \<Rightarrow> []
                       | Some i \<Rightarrow> (case subtitles i of None \<Rightarrow> [] | Some d \<Rightarrow> d));
               autos = (case ret of
                          None \<Rightarrow> []
                        | Some i \<Rightarrow> (case automatic_captions i of None \<Rightarrow> [] | Some d \<Rightarrow> d));
               pool = (if subs \<noteq> [] then subs else autos)
           in if pool = [] then (Inr ([], None), w1)
              else (case pick_key pool pref fb of
                      None \<Rightarrow> (Inr ([], None), w1)
                    | Some k \<Rightarrow>
                        if k = [] then (Inr ([], None), w1)
                        else try_encodings b vid k
                               (case map_of pool k of None \<Rightarrow> [] | Some es \<Rightarrow> es) w1)))"

text \<open>
  \<^verbatim>\<open>
  def fetch_subs_for_video(vid, pref, fb, cookies_path=None, debug=False):
      segments = []
      full = None
      try:
          ... first block ...
      except Exception as e:
          if debug: print(...)
      try:
          ... second block ...
      except Exception as e:
          if debug: print(...)
          return [], None
  \<close>
  The result is \<open>Inr\<close> of the returned pair, or \<open>Inl\<close> of an exception that leaves the
  function.  The printing under \<open>debug\<close> is left out.
\<close>

definition url_stage ::
  "'w backend \<Rightarrow> string \<Rightarrow> string \<Rightarrow> string \<Rightarrow> string option \<Rightarrow> 'w
     \<Rightarrow> (exn + subs_result) \<times> 'w" where
  "url_stage b vid pref fb cookies_path w =
     (case url_attempt b vid pref fb cookies_path w of
        (Inl e, w1) \<Rightarrow> (Inr ([], None), w1)
      | (Inr r, w1) \<Rightarrow> (Inr r, w1))"

definition fetch_subs_for_video ::
  "'w backend \<Rightarrow> string \<Rightarrow> string \<Rightarrow> string \<Rightarrow> string option \<Rightarrow> 'w
     \<Rightarrow> (exn + subs_result) \<times> 'w" where
  "fetch_subs_for_video b vid pref fb cookies_path w =
     (case api_attempt b vid pref fb cookies_path w of
        (Inr (Some r), w1) \<Rightarrow> (Inr r, w1)
      | (Inr None, w1) \<Rightarrow> url_stage b vid pref fb cookies_path w1
      | (Inl e, w1) \<Rightarrow> url_stage b vid pref fb cookies_path w1)"

section \<open>app/main.py: the query service\<close>

text \<open>
  A value of the request payload.  \<open>JOther t\<close> is any value that is no \<open>None\<close>,
  boolean, integer or string (a float, a list, an object); \<open>t\<close> is its truth value.
\<close>

datatype jval = JNull | JBool bool | JInt int | JStr string | JOther bool

definition truthy :: "jval \<Rightarrow> bool" where
  "truthy v =
     (case v of
        JNull \<Rightarrow> False
      | JBool b \<Rightarrow> b
      | JInt n \<Rightarrow> n \<noteq> 0
      | JStr s \<Rightarrow> s \<noteq> []
      | JOther t \<Rightarrow> t)"

text \<open>\<open>payload.get(key) or default\<close>.\<close>

definition get_or :: "(string \<times> jval) list \<Rightarrow> string \<Rightarrow> jval \<Rightarrow> jval" where
  "get_or payload key dflt =
     (case map_of payload key of
        None \<Rightarrow> dflt
      | Some v \<Rightarrow> if truthy v then v else dflt)"

text \<open>
  The two warehouse queries with their bound parameters: the retrieval with
  \<open>q_text\<close>, \<open>lang_filter\<close>, \<open>exclude_paid_ads\<close>, \<open>min_views\<close>, \<open>min_subs\<close>, \<open>top_k\<close>, and
  the generation with \<open>prompt\<close>.
\<close>

datatype query = Retrieval string string bool int int int | Generation string

text \<open>
  A row of the retrieval (the columns the service reads; \<open>None\<close> is \<open>NULL\<close>) and a
  row of the generation.  \<open>evidence_sec\<close> is taken to be an integer column, as the
  citation has it.
\<close>

record cand_row =
  hotel_norm :: "string option"
  aspect :: "string option"
  sentiment :: "string option"
  review_summary :: "string option"
  yt_link :: "string option"
  video_title :: "string option"
  channel_title :: "string option"
  evidence_sec :: "int option"

record summary_row =
  summary :: "string option"

record citation =
  review :: string
  link :: "string option"
  cit_video_title :: "string option"
  cit_channel_title :: "string option"
  cit_evidence_sec :: int

record answer =
  summary_text :: string
  citations :: "citation list"

text \<open>
  The world outside the service: the warehouse, which answers a query with rows
  or raises, and the conversions \<open>str(v)\<close> and \<open>int(v)\<close> of a payload value that is
  no string and no integer.  Nothing is assumed of them.
\<close>

record 'w service =
  run_retrieval :: "query \<Rightarrow> 'w \<Rightarrow> (exn + cand_row list) \<times> 'w"
  run_generation :: "query \<Rightarrow> 'w \<Rightarrow> (exn + summary_row list) \<times> 'w"
  str_of :: "jval \<Rightarrow> string"
  int_of :: "jval \<Rightarrow> exn + int"

definition py_str :: "'w service \<Rightarrow> jval \<Rightarrow> string" where
  "py_str svc v = (case v of JStr s \<Rightarrow> s | _ \<Rightarrow> str_of svc v)"

definition py_int :: "'w service \<Rightarrow> jval \<Rightarrow> exn + int" where
  "py_int svc v =
     (case v of
        JInt n \<Rightarrow> Inr n
      | JBool b \<Rightarrow> Inr (if b then 1 else 0)
      | _ \<Rightarrow> int_of svc v)"

text \<open>
  Every call of \<open>bq_client.query\<close> is written to the log of the request, the first
  component of the state, before the warehouse answers.
\<close>

definition issue_retrieval ::
  "'w service \<Rightarrow> query \<Rightarrow> query list \<times> 'w \<Rightarrow> (exn + cand_row list) \<times> (query list \<times> 'w)" where
  "issue_retrieval svc q st =
     (case run_retrieval svc q (snd st) of (r, w1) \<Rightarrow> (r, (fst st @ [q], w1)))"

definition issue_generation ::
  "'w service \<Rightarrow> query \<Rightarrow> query list \<times> 'w \<Rightarrow> (exn + summary_row list) \<times> (query list \<times> 'w)" where
  "issue_generation svc q st =
     (case run_generation svc q (snd st) of (r, w1) \<Rightarrow> (r, (fst st @ [q], w1)))"

text \<open>
  The dashes U+2014 and U+2013 of the source texts are no code points below 256;
  \<open>em_dash\<close> and \<open>en_dash\<close> stand for them.
\<close>

definition em_dash :: char where
  "em_dash = CHR 0x97"

definition en_dash :: char where
  "en_dash = CHR 0x96"

definition or_empty :: "string option \<Rightarrow> string" where
  "or_empty v = (case v of None \<Rightarrow> [] | Some s \<Rightarrow> s)"

text \<open>
  \<^verbatim>\<open>
      q_text           = str(payload.get("question") or "").strip()
      lang_filter      = str(payload.get("lang_filter") or "en")
      exclude_paid_ads = bool(payload.get("exclude_paid_ads"))
      min_views        = int(payload.get("min_views") or 0)
      min_subs         = int(payload.get("min_subs") or 0)
      top_k            = int(payload.get("top_k") or 5)
      if not q_text:
          raise HTTPException(status_code=400, detail="Missing 'question'.")
  \<close>
  The retrieval query of a request, or the exception raised before any query.
\<close>

definition request_query :: "'w service \<Rightarrow> (string \<times> jval) list \<Rightarrow> exn + query" where
  "request_query svc payload =
     (let q_text = strip (py_str svc (get_or payload ''question'' (JStr [])));
          lang_filter = py_str svc (get_or payload ''lang_filter'' (JStr ''en''));
          exclude_paid_ads = truthy (get_or payload ''exclude_paid_ads'' JNull)
      in case py_int svc (get_or payload ''min_views'' (JInt 0)) of
           Inl e \<Rightarrow> Inl e
         | Inr min_views \<Rightarrow>
             (case py_int svc (get_or payload ''min_subs'' (JInt 0)) of
                Inl e \<Rightarrow> Inl e
              | Inr min_subs \<Rightarrow>
                  (case py_int svc (get_or payload ''top_k'' (JInt 5)) of
                     Inl e \<Rightarrow> Inl e
                   | Inr top_k \<Rightarrow>
                       if q_text = [] then Inl (OtherException ''HTTPException 400'')
                       else Inr (Retrieval q_text lang_filter exclude_paid_ads
                                   min_views min_subs top_k))))"

text \<open>
  \<^verbatim>\<open>
      for r in rows:
          hotel_norm = r["hotel_norm"] or ""
          aspect = r["aspect"] or ""
          sentiment = r["sentiment"] or ""
          review_summary = r["review_summary"] or ""
          review_text = f"{hotel_norm} -- {aspect}: {review_summary}".strip()
          citations.append({"review": review_text, "link": r["yt_link"],
                            "video_title": r["video_title"],
                            "channel_title": r["channel_title"],
                            "evidence_sec": int(r["evidence_sec"] or 0)})
          bullets_parts.append(
              f"- {hotel_norm} -- {aspect} ({sentiment}): {review_summary}")
      bullets = "\n".join(bullets_parts)
  \<close>
  (the dash of the two format strings is U+2014).
\<close>

definition citation_of :: "cand_row \<Rightarrow> citation" where
  "citation_of r =
     \<lparr>review = strip (or_empty (hotel_norm r) @ '' '' @ [em_dash] @ '' '' @ or_empty (aspect r)
                      @ '': '' @ or_empty (review_summary r)),
      link = yt_link r,
      cit_video_title = video_title r,
      cit_channel_title = channel_title r,
      cit_evidence_sec = (case evidence_sec r of None \<Rightarrow> 0 | Some n \<Rightarrow> n)\<rparr>"

definition bullet_of :: "cand_row \<Rightarrow> string" where
  "bullet_of r =
     ''- '' @ or_empty (hotel_norm r) @ '' '' @ [em_dash] @ '' '' @ or_empty (aspect r)
     @ '' ('' @ or_empty (sentiment r) @ ''): '' @ or_empty (review_summary r)"

fun join_nl :: "string list \<Rightarrow> string" where
  "join_nl [] = []"
| "join_nl [x] = x"
| "join_nl (x # y # ys) = x @ CHR 0x0A # join_nl (y # ys)"

definition prompt_of :: "string \<Rightarrow> string \<Rightarrow> string" where
  "prompt_of q_text bullets =
     ''Answer the user's question in the SAME language as the question (detect automatically). ''
     @ ''Write 2'' @ [en_dash] @ ''3 concise sentences, focusing on key takeaways. ''
     @ ''Do not fabricate; use only the bullets below.'' @ [CHR 0x0A]
     @ ''Question: '' @ q_text @ [CHR 0x0A, CHR 0x0A]
     @ ''Bullets:'' @ [CHR 0x0A] @ bullets"

text \<open>
  The body of the \<open>try\<close> block of \<open>ask\<close> (source lines 58 to 149).
  \<^verbatim>\<open>
      job = bq_client.query(sql_cand, job_config=...)
      rows = list(job.result())
      ... citations, bullets ...
      if not rows:
          summary_text = "No review candidates matched your question or filters."
      else:
          prompt = (...)
          job2 = bq_client.query(sql_summary, job_config=...)
          summary_rows = list(job2.result())
          summary_text = (summary_rows[0]["summary"] if summary_rows else "").strip()
      return JSONResponse({"summary": summary_text, "citations": citations})
  \<close>
  A \<open>NULL\<close> summary has no method \<open>strip\<close>: \<open>AttributeError\<close>.
\<close>

definition ask_body ::
  "'w service \<Rightarrow> (string \<times> jval) list \<Rightarrow> query list \<times> 'w
     \<Rightarrow> (exn + answer) \<times> (query list \<times> 'w)" where
  "ask_body svc payload st =
     (case request_query svc payload of
        Inl e \<Rightarrow> (Inl e, st)
      | Inr q \<Rightarrow>
          (case issue_retrieval svc q st of
             (Inl e, st1) \<Rightarrow> (Inl e, st1)
           | (Inr rows, st1) \<Rightarrow>
               (let cits = map citation_of rows;
                    bullets = join_nl (map bullet_of rows)
                in if rows = []
                   then (Inr \<lparr>summary_text =
                                 ''No review candidates matched your question or filters.'',
                               citations = cits\<rparr>, st1)
                   else (case issue_generation svc
                                (Generation (prompt_of
                                   (case q of Retrieval q_text l x v s k \<Rightarrow> q_text
                                            | Generation p \<Rightarrow> p) bullets)) st1 of
                           (Inl e, st2) \<Rightarrow> (Inl e, st2)
                         | (Inr summary_rows, st2) \<Rightarrow>
                             (case summary_rows of
                                [] \<Rightarrow> (Inr \<lparr>summary_text = strip [], citations = cits\<rparr>, st2)
                              | row # others \<Rightarrow>
                                  (case summary row of
                                     None \<Rightarrow> (Inl (OtherException ''AttributeError''), st2)
                                   | Some t \<Rightarrow>
                                       (Inr \<lparr>summary_text = strip t, citations = cits\<rparr>,
                                        st2)))))))"

text \<open>
  \<^verbatim>\<open>
  @app.post("/ask")
  async def ask(payload):
      try:
          ...
      except Exception as e:
          raise HTTPException(status_code=500, detail=f"{type(e).__name__}: {e}")
  \<close>
  The outcome of a request is the JSON response or the error 500 made from the
  exception caught.  The request starts with an empty log.
\<close>

datatype http_result = JSONResponse answer | HTTPException_500 exn

definition ask ::
  "'w service \<Rightarrow> (string \<times> jval) list \<Rightarrow> 'w \<Rightarrow> http_result \<times> (query list \<times> 'w)" where
  "ask svc payload w =
     (case ask_body svc payload ([], w) of
        (Inl e, st) \<Rightarrow> (HTTPException_500 e, st)
      | (Inr a, st) \<Rightarrow> (JSONResponse a, st))"

definition is_generation :: "query \<Rightarrow> bool" where
  "is_generation q = (case q of Generation p \<Rightarrow> True | _ \<Rightarrow> False)"

section \<open>src/yt\_ingest/bq\_client.py: the upsert loader\<close>

text \<open>
  A row of \<open>SUBTITLES_RAW\<close> with the columns of the schema of \<open>ensure_tables\<close>;
  \<open>None\<close> is \<open>NULL\<close>.  \<open>video_id\<close> is \<open>REQUIRED\<close>.  A snippet is an element of the
  repeated record \<open>snippets\<close>; in a row handed to the loader an entry of a snippet
  may be absent.
\<close>

record snippet =
  sn_idx :: "int option"
  sn_start :: "real option"
  sn_end :: "real option"
  sn_duration :: "real option"
  sn_text :: "string option"

record sub_row =
  raw_video_id :: string
  subtitle_lang :: "string option"
  subtitle_text :: "string option"
  source :: "string option"
  snippet_count :: "int option"
  snippets :: "snippet list"
  errors :: "string list"
  ingested_at :: "string option"

text \<open>
  The state of the warehouse: the destination table, which \<open>ensure_tables\<close> has
  made, and the staging table \<open>SUBTITLES_RAW_TMP\<close>, if there is one.  The order of
  the rows of a table has no meaning.
\<close>

record warehouse =
  dest :: "sub_row list"
  tmp :: "sub_row list option"

text \<open>
  \<^verbatim>\<open>
      for r in rows:
          if "snippet_count" in r and r["snippet_count"] is not None:
              r["snippet_count"] = int(r["snippet_count"])
          if "snippets" in r and r["snippets"]:
              fixed = []
              for s in r["snippets"]:
                  fixed.append({"idx": int(s.get("idx") or 0),
                                "start": float(s.get("start") or 0.0),
                                "end": float(s.get("end") or 0.0),
                                "duration": float(s.get("duration") or 0.0),
                                "text": s.get("text")})
              r["snippets"] = fixed
  \<close>
\<close>

definition fix_snippet :: "snippet \<Rightarrow> snippet" where
  "fix_snippet s =
     \<lparr>sn_idx = Some (case sn_idx s of None \<Rightarrow> 0 | Some i \<Rightarrow> i),
      sn_start = Some (case sn_start s of None \<Rightarrow> 0 | Some x \<Rightarrow> x),
      sn_end = Some (case sn_end s of None \<Rightarrow> 0 | Some x \<Rightarrow> x),
      sn_duration = Some (case sn_duration s of None \<Rightarrow> 0 | Some x \<Rightarrow> x),
      sn_text = sn_text s\<rparr>"

definition fix_row :: "sub_row \<Rightarrow> sub_row" where
  "fix_row r = r\<lparr>snippets := map fix_snippet (snippets r)\<rparr>"

text \<open>
  \<^verbatim>\<open>
  def _load_tmp(table_id, rows):
      tmp_table_id = table_id + "_TMP"
      client.delete_table(tmp_table_id, not_found_ok=True)
      base_table = client.get_table(table_id)
      job_config = bigquery.LoadJobConfig(write_disposition="WRITE_TRUNCATE",
                                          schema=base_table.schema)
      job = client.load_table_from_json(rows, tmp_table_id, job_config=job_config)
      job.result()
  \<close>
\<close>

definition load_tmp :: "sub_row list \<Rightarrow> warehouse \<Rightarrow> warehouse" where
  "load_tmp rows wh = wh\<lparr>tmp := Some rows\<rparr>"

text \<open>
  \<open>dedupe_on.split(",")\<close>, and
  \<open>keys = [k.strip() for k in dedupe_on.split(",") if k.strip()]\<close>.
\<close>

fun split_comma_from :: "string \<Rightarrow> string \<Rightarrow> string list" where
  "split_comma_from cur [] = [cur]"
| "split_comma_from cur (c # cs) =
     (if c = CHR '','' then cur # split_comma_from [] cs
      else split_comma_from (cur @ [c]) cs)"

definition dedupe_keys :: "string \<Rightarrow> string list" where
  "dedupe_keys dedupe_on =
     map strip (filter (\<lambda>k. strip k \<noteq> []) (split_comma_from [] dedupe_on))"

text \<open>
  The columns on which the condition \<open>T.k IS NOT DISTINCT FROM S.k\<close> can be
  evaluated: the scalar columns that both \<open>T\<close> and the source query \<open>S\<close> have.  The
  arrays \<open>errors\<close> and \<open>snippets\<close> are not comparable (and \<open>S\<close> has no column
  \<open>snippets\<close>); with such a name, or one that names no column, the statement is
  taken to fail.
\<close>

datatype key_col =
  K_video_id | K_subtitle_lang | K_subtitle_text | K_source | K_snippet_count | K_ingested_at

datatype cell = CStr string | CInt int

definition column_of :: "string \<Rightarrow> key_col option" where
  "column_of k =
     (if k = ''video_id'' then Some K_video_id
      else if k = ''subtitle_lang'' then Some K_subtitle_lang
      else if k = ''subtitle_text'' then Some K_subtitle_text
      else if k = ''source'' then Some K_source
      else if k = ''snippet_count'' then Some K_snippet_count
      else if k = ''ingested_at'' then Some K_ingested_at
      else None)"

fun resolve_keys :: "string list \<Rightarrow> key_col list option" where
  "resolve_keys [] = Some []"
| "resolve_keys (k # ks) =
     (case column_of k of
        None \<Rightarrow> None
      | Some c \<Rightarrow> (case resolve_keys ks of None \<Rightarrow> None | Some cs \<Rightarrow> Some (c # cs)))"

definition key_value :: "key_col \<Rightarrow> sub_row \<Rightarrow> cell option" where
  "key_value k r =
     (case k of
        K_video_id \<Rightarrow> Some (CStr (raw_video_id r))
      | K_subtitle_lang \<Rightarrow> map_option CStr (subtitle_lang r)
      | K_subtitle_text \<Rightarrow> map_option CStr (subtitle_text r)
      | K_source \<Rightarrow> map_option CStr (source r)
      | K_snippet_count \<Rightarrow> map_option CInt (snippet_count r)
      | K_ingested_at \<Rightarrow> map_option CStr (ingested_at r))"

text \<open>\<open>a IS NOT DISTINCT FROM b\<close>: equality that takes two \<open>NULL\<close>s for equal.\<close>

definition is_not_distinct_from :: "'a option \<Rightarrow> 'a option \<Rightarrow> bool" where
  "is_not_distinct_from a b =
     (case a of
        None \<Rightarrow> (case b of None \<Rightarrow> True | Some y \<Rightarrow> False)
      | Some x \<Rightarrow> (case b of None \<Rightarrow> False | Some y \<Rightarrow> x = y))"

text \<open>
  \<^verbatim>\<open>
  def _build_merge_condition_from_keys(keys):
      conds = []
      for k in keys:
          k = k.strip()
          if not k:
              continue
          conds.append(f"T.{k} IS NOT DISTINCT FROM S.{k}")
      return " AND ".join(conds) if conds else "FALSE"
  \<close>
  The condition as a predicate on a destination row \<open>t\<close> and a source row \<open>s\<close>.
\<close>

definition merge_condition :: "key_col list \<Rightarrow> sub_row \<Rightarrow> sub_row \<Rightarrow> bool" where
  "merge_condition keys t s =
     (if keys = [] then False
      else list_all (\<lambda>k. is_not_distinct_from (key_value k t) (key_value k s)) keys)"

text \<open>
  The statement of \<open>upsert_subtitles_raw\<close>:
  \<^verbatim>\<open>
    MERGE `{table}` T
    USING (SELECT S.video_id, S.subtitle_lang, S.subtitle_text, S.source, S.snippet_count,
                  S.errors, SAFE_CAST(S.ingested_at AS TIMESTAMP) AS ingested_at,
                  (SELECT ARRAY_AGG(STRUCT(x.idx AS idx, x.start AS start, x.`end` AS `end`,
                                           x.duration AS duration, x.text AS text))
                   FROM UNNEST(IFNULL(S.snippets, [])) AS x) AS snippets_fixed
           FROM `{table}_TMP` AS S) AS S
    ON {merge condition}
    WHEN MATCHED THEN UPDATE SET
      subtitle_lang = S.subtitle_lang, subtitle_text = S.subtitle_text, source = S.source,
      snippet_count = S.snippet_count, snippets = S.snippets_fixed, errors = S.errors,
      ingested_at = S.ingested_at
    WHEN NOT MATCHED THEN INSERT (video_id, subtitle_lang, subtitle_text, source,
                                  snippet_count, snippets, errors, ingested_at)
    VALUES (S.video_id, S.subtitle_lang, S.subtitle_text, S.source,
            S.snippet_count, S.snippets_fixed, S.errors, S.ingested_at);
  \<close>
  \<open>snippets_fixed\<close> builds the array of a staged row again, element by element;
  the cast of \<open>ingested_at\<close>, a \<open>TIMESTAMP\<close> in the staging table, changes nothing.
\<close>

definition snippets_fixed :: "sub_row \<Rightarrow> snippet list" where
  "snippets_fixed s =
     map (\<lambda>x. \<lparr>sn_idx = sn_idx x, sn_start = sn_start x, sn_end = sn_end x,
                sn_duration = sn_duration x, sn_text = sn_text x\<rparr>) (snippets s)"

definition update_set :: "sub_row \<Rightarrow> sub_row \<Rightarrow> sub_row" where
  "update_set t s =
     t\<lparr>subtitle_lang := subtitle_lang s, subtitle_text := subtitle_text s,
       source := source s, snippet_count := snippet_count s,
       snippets := snippets_fixed s, errors := errors s, ingested_at := ingested_at s\<rparr>"

definition insert_values :: "sub_row \<Rightarrow> sub_row" where
  "insert_values s =
     \<lparr>raw_video_id = raw_video_id s, subtitle_lang = subtitle_lang s,
      subtitle_text = subtitle_text s, source = source s,
      snippet_count = snippet_count s, snippets = snippets_fixed s,
      errors = errors s, ingested_at = ingested_at s\<rparr>"

text \<open>
  The destination table after a statement that does not fail: every destination
  row with a matching source row is updated from the first such row, and every
  source row that matches no destination row is inserted.
\<close>

definition merged :: "key_col list \<Rightarrow> sub_row list \<Rightarrow> sub_row list \<Rightarrow> sub_row list" where
  "merged ks dst stg =
     map (\<lambda>t. case find (merge_condition ks t) stg of
                 None \<Rightarrow> t
               | Some s \<Rightarrow> update_set t s) dst
     @ map insert_values (filter (\<lambda>s. \<not> list_ex (\<lambda>t. merge_condition ks t s) dst) stg)"

text \<open>
  The effect of the statement.  It fails when the staging table is missing, when
  a key names no comparable column, and when a destination row matches more than
  one source row (\<open>UPDATE/MERGE must match at most one source row for each target
  row\<close>); a failed statement changes nothing.  Otherwise every destination row
  with a matching source row is updated from it, and every source row that
  matches no destination row is inserted.
\<close>

definition merge_stmt :: "string list \<Rightarrow> warehouse \<Rightarrow> exn option \<times> warehouse" where
  "merge_stmt keys wh =
     (case tmp wh of
        None \<Rightarrow> (Some (OtherException ''NotFound''), wh)
      | Some stg \<Rightarrow>
          (case resolve_keys keys of
             None \<Rightarrow> (Some (OtherException ''BadRequest''), wh)
           | Some ks \<Rightarrow>
               if list_ex (\<lambda>t. 1 < length (filter (merge_condition ks t) stg)) (dest wh)
               then (Some (OtherException ''BadRequest''), wh)
               else (None, wh\<lparr>dest := merged ks (dest wh) stg\<rparr>)))"

definition delete_tmp :: "warehouse \<Rightarrow> warehouse" where
  "delete_tmp wh = wh\<lparr>tmp := None\<rparr>"

text \<open>
  \<^verbatim>\<open>
  def upsert_subtitles_raw(rows, dedupe_on="video_id,subtitle_lang"):
      table = f"{PROJECT}.{DATASET}.SUBTITLES_RAW"
      if not rows:
          return
      ... the rows are fixed ...
      _load_tmp(table, rows)
      keys = [k.strip() for k in dedupe_on.split(",") if k.strip()]
      ...
      client.query(query).result()
      client.delete_table(table + "_TMP", not_found_ok=True)
  \<close>
  The result is the exception that leaves the function, if any, and the new state
  of the warehouse.
\<close>

definition upsert_subtitles_raw ::
  "sub_row list \<Rightarrow> string \<Rightarrow> warehouse \<Rightarrow> exn option \<times> warehouse" where
  "upsert_subtitles_raw rows dedupe_on wh =
     (if rows = [] then (None, wh)
      else (case merge_stmt (dedupe_keys dedupe_on) (load_tmp (map fix_row rows) wh) of
              (Some e, wh1) \<Rightarrow> (Some e, wh1)
            | (None, wh1) \<Rightarrow> (None, delete_tmp wh1)))"

definition default_dedupe_on :: string where
  "default_dedupe_on = ''video_id,subtitle_lang''"

text \<open>
  The merge as the specification words it: a staged row matches a destination row
  when the two are equal on every key column, \<open>NULL\<close> being a value like any
  other; a matched destination row takes every column that is no key from the
  staged row; a staged row without a match is inserted whole.
\<close>

definition spec_match :: "key_col list \<Rightarrow> sub_row \<Rightarrow> sub_row \<Rightarrow> bool" where
  "spec_match keys t s = list_all (\<lambda>k. key_value k t = key_value k s) keys"

definition spec_update :: "key_col list \<Rightarrow> sub_row \<Rightarrow> sub_row \<Rightarrow> sub_row" where
  "spec_update keys t s =
     \<lparr>raw_video_id = (if K_video_id \<in> set keys then raw_video_id t else raw_video_id s),
      subtitle_lang = (if K_subtitle_lang \<in> set keys then subtitle_lang t else subtitle_lang s),
      subtitle_text = (if K_subtitle_text \<in> set keys then subtitle_text t else subtitle_text s),
      source = (if K_source \<in> set keys then source t else source s),
      snippet_count = (if K_snippet_count \<in> set keys then snippet_count t else snippet_count s),
      snippets = snippets s,
      errors = errors s,
      ingested_at = (if K_ingested_at \<in> set keys then ingested_at t else ingested_at s)\<rparr>"

definition spec_merge :: "key_col list \<Rightarrow> sub_row list \<Rightarrow> sub_row list \<Rightarrow> sub_row list" where
  "spec_merge keys dst stg =
     map (\<lambda>t. case find (spec_match keys t) stg of
                 None \<Rightarrow> t
               | Some s \<Rightarrow> spec_update keys t s) dst
     @ filter (\<lambda>s. \<not> list_ex (\<lambda>t. spec_match keys t s) dst) stg"


section \<open>src/yt\_ingest/yt\_subtitles.py: the second acquisition\<close>

text \<open>
  \<^verbatim>\<open>
  def _pick_json3_track(info, langs):
      subs = info.get("subtitles") or {}
      autos = info.get("automatic_captions") or {}
      for lang in langs:
          tracks = subs.get(lang, [])
          entry = next((t for t in tracks if t.get("ext") == "json3"), None)
          if entry and entry.get("url"):
              return entry["url"], lang, "manual"
      for lang in langs:
          ... the same on autos ...
              return entry["url"], lang, "auto"
      return "", "", ""
  \<close>
\<close>

fun pick_in :: "(string \<times> track list) list \<Rightarrow> string list \<Rightarrow> (string \<times> string) option" where
  "pick_in pool [] = None"
| "pick_in pool (l # ls) =
     (case find (\<lambda>t. ext t = Some ''json3'')
             (case map_of pool l of None \<Rightarrow> [] | Some tracks \<Rightarrow> tracks) of
        None \<Rightarrow> pick_in pool ls
      | Some entry \<Rightarrow>
          (case url entry of
             None \<Rightarrow> pick_in pool ls
           | Some u \<Rightarrow> if u \<noteq> [] then Some (u, l) else pick_in pool ls))"

definition pick_json3_track :: "info \<Rightarrow> string list \<Rightarrow> string \<times> string \<times> string" where
  "pick_json3_track i langs =
     (case pick_in (case subtitles i of None \<Rightarrow> [] | Some d \<Rightarrow> d) langs of
        Some (u, l) \<Rightarrow> (u, l, ''manual'')
      | None \<Rightarrow>
          (case pick_in (case automatic_captions i of None \<Rightarrow> [] | Some d \<Rightarrow> d) langs of
             Some (u, l) \<Rightarrow> (u, l, ''auto'')
           | None \<Rightarrow> ([], [], [])))"

text \<open>
  \<^verbatim>\<open>
  def _events_to_snippets(json3):
      out = []
      events = json3.get("events", []) or []
      idx = 0
      for e in events:
          segs = e.get("segs")
          tstart = e.get("tStartMs")
          if not segs or tstart is None:
              continue
          start = float(tstart) / 1000.0
          dur = float(e.get("dDurationMs", 0)) / 1000.0
          end = start + dur
          text = "".join(seg.get("utf8", "") for seg in segs).strip()
          if text:
              out.append({"idx": idx, "start": start, "end": end,
                          "duration": dur, "text": text})
              idx += 1
      return out
  \<close>
  \<open>snippets_loop\<close> is the loop on the state \<open>(idx, out)\<close>.
\<close>

definition snippet_text :: "event \<Rightarrow> string" where
  "snippet_text e =
     strip (concat (map (\<lambda>s. case utf8 s of None \<Rightarrow> [] | Some t \<Rightarrow> t) (seg_list_of e)))"

fun snippets_loop :: "event list \<Rightarrow> nat \<times> snippet list \<Rightarrow> nat \<times> snippet list" where
  "snippets_loop [] st = st"
| "snippets_loop (e # es) (i, out) =
     (if seg_list_of e = [] \<or> tStartMs e = None then snippets_loop es (i, out)
      else if snippet_text e = [] then snippets_loop es (i, out)
      else snippets_loop es
             (Suc i,
              out @ [\<lparr>sn_idx = Some (int i),
                      sn_start = Some (ms_field (tStartMs e) / 1000),
                      sn_end = Some (ms_field (tStartMs e) / 1000
                                     + ms_field (dDurationMs e) / 1000),
                      sn_duration = Some (ms_field (dDurationMs e) / 1000),
                      sn_text = Some (snippet_text e)\<rparr>]))"

definition events_to_snippets :: "json3 \<Rightarrow> exn + snippet list" where
  "events_to_snippets j =
     (case j of
        Falsy \<Rightarrow> Inl (OtherException ''AttributeError'')
      | Empty_object \<Rightarrow> Inr []
      | NotAnObject \<Rightarrow> Inl (OtherException ''AttributeError'')
      | Object None \<Rightarrow> Inr []
      | Object (Some evs) \<Rightarrow> Inr (snd (snippets_loop evs (0, []))))"

text \<open>
  The world of this acquisition: \<open>_extract_info\<close>, which returns the information of
  a video (a dictionary, by its annotation) or raises; \<open>_download\<close>, which returns
  the decoded document of a URL or raises; the clock read by \<open>_now_iso\<close>; and the
  text \<open>f"{e}"\<close> of an exception.
\<close>

record 'w yt_world =
  yt_extract_info :: "string \<Rightarrow> 'w \<Rightarrow> (exn + info) \<times> 'w"
  yt_download :: "string \<Rightarrow> 'w \<Rightarrow> (exn + json3) \<times> 'w"
  now_iso :: "'w \<Rightarrow> string"
  exn_text :: "exn \<Rightarrow> string"

text \<open>
  \<^verbatim>\<open>
  def get_subtitles(video_id, pref_langs=None):
      if pref_langs is None:
          pref_langs = ["en", "ko"]
      errors = []
      try:
          info = _extract_info(video_id)
      except Exception as e:
          return {..., "errors": [f"extract_failed: {e}"], ...}
      url, lang, source = _pick_json3_track(info, pref_langs)
      if not url:
          return {..., "errors": ["no_suitable_track"], ...}
      try:
          data = _download(url)
          snippets = _events_to_snippets(data)
          full_text = " ".join(s["text"] for s in snippets) if snippets else None
          return {"video_id": video_id, "subtitle_lang": lang, "subtitle_text": full_text,
                  "source": source, "snippet_count": len(snippets), "snippets": snippets,
                  "errors": errors, "ingested_at": _now_iso()}
      except Exception as e:
          return {..., "subtitle_lang": lang, "source": source,
                  "errors": [f"download_or_parse_failed: {e}"], ...}
  \<close>
  The result is \<open>Inr\<close> of the row returned, or \<open>Inl\<close> of an exception that leaves the
  function.
\<close>

definition failure_row ::
  "string \<Rightarrow> string option \<Rightarrow> string option \<Rightarrow> string \<Rightarrow> string \<Rightarrow> sub_row" where
  "failure_row vid l src err now =
     \<lparr>raw_video_id = vid, subtitle_lang = l, subtitle_text = None, source = src,
      snippet_count = Some 0, snippets = [], errors = [err], ingested_at = Some now\<rparr>"

definition get_subtitles ::
  "'w yt_world \<Rightarrow> string \<Rightarrow> string list option \<Rightarrow> 'w \<Rightarrow> (exn + sub_row) \<times> 'w" where
  "get_subtitles yw vid pref_langs w =
     (let langs = (case pref_langs of None \<Rightarrow> [''en'', ''ko''] | Some ls \<Rightarrow> ls)
      in case yt_extract_info yw vid w of
           (Inl e, w1) \<Rightarrow>
             (Inr (failure_row vid None None (''extract_failed: '' @ exn_text yw e)
                     (now_iso yw w1)), w1)
         | (Inr i, w1) \<Rightarrow>
             (case pick_json3_track i langs of
                (u, l, src) \<Rightarrow>
                  if u = []
                  then (Inr (failure_row vid None None ''no_suitable_track'' (now_iso yw w1)), w1)
                  else (case yt_download yw u w1 of
                          (Inl e, w2) \<Rightarrow>
                            (Inr (failure_row vid (Some l) (Some src)
                                    (''download_or_parse_failed: '' @ exn_text yw e)
                                    (now_iso yw w2)), w2)
                        | (Inr d, w2) \<Rightarrow>
                            (case events_to_snippets d of
                               Inl e \<Rightarrow>
                                 (Inr (failure_row vid (Some l) (Some src)
                                         (''download_or_parse_failed: '' @ exn_text yw e)
                                         (now_iso yw w2)), w2)
                             | Inr sns \<Rightarrow>
                                 (Inr \<lparr>raw_video_id = vid, subtitle_lang = Some l,
                                        subtitle_text =
                                          (if sns \<noteq> []
                                           then Some (join_sp (map (\<lambda>sn. or_empty (sn_text sn)) sns))
                                           else None),
                                        source = Some src,
                                        snippet_count = Some (int (length sns)),
                                        snippets = sns, errors = [],
                                        ingested_at = Some (now_iso yw w2)\<rparr>, w2)))))"

text \<open>The events this parser keeps, and the snippet of a kept event.\<close>

definition kept :: "event \<Rightarrow> bool" where
  "kept e = (seg_list_of e \<noteq> [] \<and> tStartMs e \<noteq> None \<and> snippet_text e \<noteq> [])"

definition event_snippet :: "nat \<Rightarrow> event \<Rightarrow> snippet" where
  "event_snippet i e =
     \<lparr>sn_idx = Some (int i),
      sn_start = Some (ms_field (tStartMs e) / 1000),
      sn_end = Some (ms_field (tStartMs e) / 1000 + ms_field (dDurationMs e) / 1000),
      sn_duration = Some (ms_field (dDurationMs e) / 1000),
      sn_text = Some (snippet_text e)\<rparr>"

fun number_snippets :: "nat \<Rightarrow> event list \<Rightarrow> snippet list" where
  "number_snippets i [] = []"
| "number_snippets i (e # es) = event_snippet i e # number_snippets (Suc i) es"

section \<open>ingest/load\_to\_bq.py: the merges of the subtitle tables\<close>

text \<open>
  The destination tables \<open>subtitles_segments\<close> and \<open>subtitles_full\<close>, with the rows
  that \<open>fetch_subs_for_video\<close> writes; their key entries are never \<open>NULL\<close>, so the
  plain equality of the two conditions is the equality of the values.
  \<^verbatim>\<open>
  def _merge_subtitles(seg_stg, full_stg):
      if seg_stg:
          MERGE subtitles_segments T USING seg_stg S
          ON  T.video_id = S.video_id AND T.lang = S.lang AND T.idx = S.idx
          WHEN NOT MATCHED THEN
            INSERT (video_id, lang, idx, start_sec, dur_sec, text)
            VALUES (S.video_id, S.lang, S.idx, S.start_sec, S.dur_sec, S.text)
      if full_stg:
          MERGE subtitles_full T USING full_stg S
          ON  T.video_id = S.video_id AND T.lang = S.lang
          WHEN MATCHED THEN UPDATE SET T.full_text = S.full_text
          WHEN NOT MATCHED THEN
            INSERT (video_id, lang, full_text) VALUES (S.video_id, S.lang, S.full_text)
  \<close>
  The first statement only inserts; the second fails when a destination row
  matches more than one source row.  \<open>load_subtitles\<close> is the branch \<open>subtitles\<close> of
  \<open>main\<close>: nothing is done when both files are empty, and a file that is empty is
  not staged.  The staging tables, made before the two statements and deleted
  after them, are the batches themselves here.
\<close>

record raw_tables =
  subtitles_segments :: "seg_row list"
  subtitles_full :: "full_row list"

definition seg_on :: "seg_row \<Rightarrow> seg_row \<Rightarrow> bool" where
  "seg_on t s = (video_id t = video_id s \<and> lang t = lang s \<and> idx t = idx s)"

definition full_on :: "full_row \<Rightarrow> full_row \<Rightarrow> bool" where
  "full_on t s = (full_video_id t = full_video_id s \<and> full_lang t = full_lang s)"

definition merge_segments :: "seg_row list \<Rightarrow> seg_row list \<Rightarrow> seg_row list" where
  "merge_segments dst stg = dst @ filter (\<lambda>s. \<not> list_ex (\<lambda>t. seg_on t s) dst) stg"

definition merge_full :: "full_row list \<Rightarrow> full_row list \<Rightarrow> exn + full_row list" where
  "merge_full dst stg =
     (if list_ex (\<lambda>t. 1 < length (filter (full_on t) stg)) dst
      then Inl (OtherException ''BadRequest'')
      else Inr (map (\<lambda>t. case find (full_on t) stg of
                           None \<Rightarrow> t
                         | Some s \<Rightarrow> t\<lparr>full_text := full_text s\<rparr>) dst
                @ filter (\<lambda>s. \<not> list_ex (\<lambda>t. full_on t s) dst) stg))"

fun distinct_full :: "full_row list \<Rightarrow> bool" where
  "distinct_full [] = True"
| "distinct_full (r # rs) = (\<not> list_ex (\<lambda>r'. full_on r r') rs \<and> distinct_full rs)"

definition merge_subtitles ::
  "seg_row list option \<Rightarrow> full_row list option \<Rightarrow> raw_tables \<Rightarrow> exn option \<times> raw_tables" where
  "merge_subtitles seg_stg full_stg tb =
     (let tb1 = (case seg_stg of
                   None \<Rightarrow> tb
                 | Some stg \<Rightarrow> tb\<lparr>subtitles_segments := merge_segments (subtitles_segments tb) stg\<rparr>)
      in case full_stg of
           None \<Rightarrow> (None, tb1)
         | Some stg \<Rightarrow>
             (case merge_full (subtitles_full tb1) stg of
                Inl e \<Rightarrow> (Some e, tb1)
              | Inr rows \<Rightarrow> (None, tb1\<lparr>subtitles_full := rows\<rparr>)))"

definition load_subtitles ::
  "seg_row list \<Rightarrow> full_row list \<Rightarrow> raw_tables \<Rightarrow> exn option \<times> raw_tables" where
  "load_subtitles seg full tb =
     (if seg = [] \<and> full = [] then (None, tb)
      else merge_subtitles (if seg \<noteq> [] then Some seg else None)
             (if full \<noteq> [] then Some full else None) tb)"

section \<open>The parsers as the specification words them\<close>

text \<open>
  An event is retained when its fragment list is present and not empty and its
  text (fragments concatenated, newlines replaced, stripped) is not empty.  The
  retained events are numbered from zero in their order.
\<close>

definition retained :: "event \<Rightarrow> bool" where
  "retained ev = (seg_list_of ev \<noteq> [] \<and> event_text ev \<noteq> [])"

definition event_segment :: "nat \<Rightarrow> event \<Rightarrow> segment" where
  "event_segment i ev =
     \<lparr>idx = i, start_sec = ms_field (tStartMs ev) / 1000,
      dur_sec = ms_field (dDurationMs ev) / 1000, seg_text = event_text ev\<rparr>"

fun number_events :: "nat \<Rightarrow> event list \<Rightarrow> segment list" where
  "number_events i [] = []"
| "number_events i (ev # evs) = event_segment i ev # number_events (Suc i) evs"

text \<open>
  A cue is opened by a line that matches the timestamp pattern; its body is the
  run of lines after it that are neither blank nor hold an arrow.  \<open>vtt_cues\<close> is
  the list of the cues of a text in their order, each with its two times and all
  lines of its body.
\<close>

record cue =
  cue_start :: real
  cue_end :: real
  cue_lines :: "string list"

definition is_body_line :: "string \<Rightarrow> bool" where
  "is_body_line l = (l \<noteq> [] \<and> \<not> contains l ''-->'')"

function vtt_cues :: "string list \<Rightarrow> cue list" where
  "vtt_cues [] = []"
| "vtt_cues (line # rest) =
     (case VTT_TS_search line of
        Some (h, m, s, h2, m2, s2) \<Rightarrow>
          \<lparr>cue_start = hms_to_sec h m s, cue_end = hms_to_sec h2 m2 s2,
           cue_lines = takeWhile is_body_line rest\<rparr>
          # vtt_cues (dropWhile is_body_line rest)
      | None \<Rightarrow> vtt_cues rest)"
  by pat_completeness auto
termination
  by (relation "measure length") (auto simp: less_Suc_eq_le length_dropWhile_le)

text \<open>
  The text of a cue joins the lines of its body that do not begin with \<open>NOTE\<close>; a
  cue is emitted when that text is not empty, with the duration floored at zero.
\<close>

definition cue_words :: "cue \<Rightarrow> string" where
  "cue_words c = cue_text (filter (\<lambda>l. \<not> startswith l ''NOTE'') (cue_lines c))"

definition emitted :: "cue \<Rightarrow> bool" where
  "emitted c = (cue_words c \<noteq> [])"

definition cue_segment :: "nat \<Rightarrow> cue \<Rightarrow> segment" where
  "cue_segment i c =
     \<lparr>idx = i, start_sec = cue_start c, dur_sec = max 0 (cue_end c - cue_start c),
      seg_text = cue_words c\<rparr>"

fun number_cues :: "nat \<Rightarrow> cue list \<Rightarrow> segment list" where
  "number_cues i [] = []"
| "number_cues i (c # cs) = cue_segment i c # number_cues (Suc i) cs"

text \<open>
  A result that carries a track: the rows made from a non-empty list of segments
  numbered from zero without a gap, with the full text joined from them.
\<close>

definition track_result :: "string \<Rightarrow> subs_result \<Rightarrow> bool" where
  "track_result vid r =
     (\<exists>k evs. r = make_rows vid k evs (join_sp (map seg_text evs))
        \<and> evs \<noteq> [] \<and> map idx evs = [0..<length evs])"

section \<open>Sample inputs\<close>


text \<open>
  A text with two cues: the first holds a \<open>NOTE\<close> line in its body, the second
  ends before it starts.
\<close>

definition sample_vtt :: string where
  "sample_vtt =
     ''WEBVTT'' @ [CHR 0x0A, CHR 0x0A]
     @ ''00:00:01.000 --> 00:00:02.500'' @ [CHR 0x0A]
     @ ''hello'' @ [CHR 0x0A]
     @ ''NOTE this is a comment'' @ [CHR 0x0A]
     @ ''world'' @ [CHR 0x0A, CHR 0x0A]
     @ ''00:00:05.000 --> 00:00:04.000'' @ [CHR 0x0A]
     @ ''back''"

text \<open>
  A backend whose extraction with the JSON3 options raises, whose plain extraction
  offers one automatic English track in the cue encoding, and whose session
  answers every request with the sample text.  Its world counts the calls.
\<close>

definition sample_backend :: "nat backend" where
  "sample_backend =
     \<lparr>extract_info = (\<lambda>opts u w.
          case opts of
            Json3_opts langs cookie \<Rightarrow> (Inl (OtherException ''DownloadError''), Suc w)
          | Plain_opts cookie \<Rightarrow>
              (Inr (Some \<lparr>requested_subtitles = None, subtitles = None,
                           automatic_captions =
                             Some [(''en'', [\<lparr>ext = Some ''vtt'', url = Some ''u''\<rparr>])]\<rparr>),
               Suc w)),
      session_get = (\<lambda>u w. (Inr \<lparr>status_code = 200, body = sample_vtt\<rparr>, Suc w)),
      path_exists = (\<lambda>p w. False),
      json_loads = (\<lambda>t. Inl (OtherException ''JSONDecodeError'')),
      jitter_sleep = (\<lambda>d j w. w)\<rparr>"

text \<open>
  A service whose warehouse finds one candidate for the question \<open>pool\<close> and none
  for any other, and whose generation answers with one row.
\<close>

definition sample_row :: cand_row where
  "sample_row =
     \<lparr>hotel_norm = Some ''Hotel A'', aspect = Some ''pool'', sentiment = Some ''positive'',
      review_summary = Some ''clean'', yt_link = Some ''https://youtu.be/x'',
      video_title = Some ''Tour'', channel_title = None, evidence_sec = Some 75\<rparr>"

definition sample_service :: "nat service" where
  "sample_service =
     \<lparr>run_retrieval = (\<lambda>q w.
          (Inr (case q of
                  Retrieval q_text l x v s k \<Rightarrow> if q_text = ''pool'' then [sample_row] else []
                | Generation p \<Rightarrow> []),
           Suc w)),
      run_generation = (\<lambda>q w. (Inr [\<lparr>summary = Some '' The pool is clean. ''\<rparr>], Suc w)),
      str_of = (\<lambda>v. ''?''),
      int_of = (\<lambda>v. Inl (OtherException ''ValueError''))\<rparr>"

text \<open>Rows of \<open>SUBTITLES_RAW\<close>: two for one video and language, two without a language.\<close>

definition row_a :: sub_row where
  "row_a = \<lparr>raw_video_id = ''v1'', subtitle_lang = Some ''en'', subtitle_text = Some ''old'',
            source = Some ''manual'', snippet_count = Some 0, snippets = [], errors = [],
            ingested_at = None\<rparr>"

definition row_a2 :: sub_row where
  "row_a2 = \<lparr>raw_video_id = ''v1'', subtitle_lang = Some ''en'', subtitle_text = Some ''new'',
             source = Some ''manual'', snippet_count = Some 1,
             snippets = [\<lparr>sn_idx = Some 0, sn_start = Some 0, sn_end = Some 2,
                          sn_duration = Some 2, sn_text = Some ''new''\<rparr>],
             errors = [], ingested_at = None\<rparr>"

definition row_n :: sub_row where
  "row_n = \<lparr>raw_video_id = ''v3'', subtitle_lang = None, subtitle_text = None,
            source = None, snippet_count = Some 0, snippets = [],
            errors = [''no_suitable_track''], ingested_at = None\<rparr>"

definition row_n2 :: sub_row where
  "row_n2 = \<lparr>raw_video_id = ''v3'', subtitle_lang = None, subtitle_text = None,
             source = None, snippet_count = Some 0, snippets = [],
             errors = [''extract_failed''], ingested_at = None\<rparr>"

definition row_b :: sub_row where
  "row_b = \<lparr>raw_video_id = ''v2'', subtitle_lang = Some ''en'', subtitle_text = Some ''other'',
            source = Some ''auto'', snippet_count = Some 0, snippets = [], errors = [],
            ingested_at = None\<rparr>"

definition full_x :: full_row where
  "full_x = \<lparr>full_video_id = ''v1'', full_lang = ''en'', full_text = ''hello''\<rparr>"

section \<open>Properties of the backoff sequence\<close>

lemma length_backoff_loop: "length (backoff_loop n delay cap factor) = n"
  by (induction n arbitrary: delay) simp_all

lemma backoff_loop_le_cap: "v \<in> set (backoff_loop n delay cap factor) \<Longrightarrow> v \<le> cap"
  by (induction n arbitrary: delay) auto

lemma backoff_loop_step:
  "delay \<le> cap \<Longrightarrow> Suc k < n \<Longrightarrow>
   backoff_loop n delay cap factor ! Suc k =
     min (backoff_loop n delay cap factor ! k * factor) cap"
proof (induction n arbitrary: delay k)
  case 0
  then show ?case by simp
next
  case (Suc n)
  note bound = Suc.prems(2) and IH = Suc.IH
  have capped: "min (delay * factor) cap \<le> cap" by simp
  from bound obtain m where n: "n = Suc m" by (cases n) auto
  show ?case
  proof (cases k)
    case 0
    with n Suc.prems(1) show ?thesis by simp
  next
    case (Suc j)
    with bound have "Suc j < n" by simp
    from IH [OF capped this] Suc show ?thesis by simp
  qed
qed

lemma backoff_loop_second:
  "backoff_loop (Suc (Suc n)) delay cap factor ! 1 = min (delay * factor) cap"
  by simp

lemma backoff_loop_later:
  assumes "Suc (Suc k) < n"
  shows "backoff_loop n delay cap factor ! Suc (Suc k) =
     min (backoff_loop n delay cap factor ! Suc k * factor) cap"
proof -
  from assms obtain m where n: "n = Suc m" by (cases n) auto
  with assms have "Suc k < m" by simp
  from backoff_loop_step [of "min (delay * factor) cap" cap k m factor, OF _ this] n
  show ?thesis by simp
qed

text \<open>
  C4, as the code has it.  The sequence has \<open>max_tries\<close> values (none for a negative
  \<open>max_tries\<close>) and no value exceeds \<open>cap\<close>.  The first value is \<open>min(base, cap)\<close>, the
  second is \<open>min(base * factor, cap)\<close>, and every later value is
  \<open>min(previous * factor, cap)\<close>.  Whenever \<open>base \<le> cap\<close> the first value is \<open>base\<close> and
  every value after the first equals \<open>min(previous * factor, cap)\<close>, so that it is at
  most \<open>previous * factor\<close> and at most \<open>cap\<close>.
\<close>

theorem backoff_sequence_capped:
  "length (backoff_sequence max_tries base cap factor) = nat max_tries
   \<and> (\<forall>v \<in> set (backoff_sequence max_tries base cap factor). v \<le> cap)
   \<and> (0 < max_tries \<longrightarrow> hd (backoff_sequence max_tries base cap factor) = min base cap)
   \<and> (1 < max_tries \<longrightarrow>
        backoff_sequence max_tries base cap factor ! 1 = min (base * factor) cap)
   \<and> (\<forall>k. Suc (Suc k) < nat max_tries \<longrightarrow>
        backoff_sequence max_tries base cap factor ! Suc (Suc k) =
          min (backoff_sequence max_tries base cap factor ! Suc k * factor) cap)
   \<and> (base \<le> cap \<longrightarrow>
        (0 < max_tries \<longrightarrow> hd (backoff_sequence max_tries base cap factor) = base)
        \<and> (\<forall>k. Suc k < nat max_tries \<longrightarrow>
             backoff_sequence max_tries base cap factor ! Suc k =
               min (backoff_sequence max_tries base cap factor ! k * factor) cap
             \<and> backoff_sequence max_tries base cap factor ! Suc k
                 \<le> backoff_sequence max_tries base cap factor ! k * factor
             \<and> backoff_sequence max_tries base cap factor ! Suc k \<le> cap))"
proof -
  let ?ys = "backoff_sequence max_tries base cap factor"
  have len: "length ?ys = nat max_tries"
    by (simp add: backoff_sequence_def length_backoff_loop)
  have cap: "\<forall>v \<in> set ?ys. v \<le> cap"
    by (auto simp: backoff_sequence_def dest: backoff_loop_le_cap)
  have first: "0 < max_tries \<longrightarrow> hd ?ys = min base cap"
  proof
    assume "0 < max_tries"
    then obtain m where "nat max_tries = Suc m" by (cases "nat max_tries") auto
    then show "hd ?ys = min base cap" by (simp add: backoff_sequence_def)
  qed
  have second: "1 < max_tries \<longrightarrow> ?ys ! 1 = min (base * factor) cap"
  proof
    assume "1 < max_tries"
    then obtain m where "nat max_tries = Suc (Suc m)"
      by (cases "nat max_tries"; cases "nat max_tries - 1") auto
    then show "?ys ! 1 = min (base * factor) cap" by (simp add: backoff_sequence_def)
  qed
  have later: "\<forall>k. Suc (Suc k) < nat max_tries \<longrightarrow>
      ?ys ! Suc (Suc k) = min (?ys ! Suc k * factor) cap"
    by (simp add: backoff_sequence_def backoff_loop_later)
  have rec: "base \<le> cap \<longrightarrow> (\<forall>k. Suc k < nat max_tries \<longrightarrow>
      ?ys ! Suc k = min (?ys ! k * factor) cap)"
    by (simp add: backoff_sequence_def backoff_loop_step)
  have below: "base \<le> cap \<longrightarrow>
      (0 < max_tries \<longrightarrow> hd ?ys = base)
      \<and> (\<forall>k. Suc k < nat max_tries \<longrightarrow>
            ?ys ! Suc k = min (?ys ! k * factor) cap
            \<and> ?ys ! Suc k \<le> ?ys ! k * factor
            \<and> ?ys ! Suc k \<le> cap)"
  proof (intro impI conjI allI)
    assume "base \<le> cap" "0 < max_tries"
    with first show "hd ?ys = base" by simp
  next
    fix k assume b: "base \<le> cap" and k: "Suc k < nat max_tries"
    with rec show eq: "?ys ! Suc k = min (?ys ! k * factor) cap" by blast
    then show "?ys ! Suc k \<le> ?ys ! k * factor" by simp
    from eq show "?ys ! Suc k \<le> cap" by simp
  qed
  from len cap first second later below show ?thesis by blast
qed

theorem backoff_sequence_capped_witness:
  "backoff_sequence 3 1 16 2 = [1, 2, 4]
   \<and> length (backoff_sequence 3 1 16 2) = 3
   \<and> hd (backoff_sequence 3 1 16 2) = 1
   \<and> backoff_sequence 3 1 16 2 ! Suc 1 = min (backoff_sequence 3 1 16 2 ! 1 * 2) 16"
proof -
  have v: "backoff_sequence 3 1 16 2 = [1, 2, 4]"
    by (simp add: backoff_sequence_def eval_nat_numeral)
  have h: "(1::real) \<le> 16" "(0::int) < 3" "Suc 1 < nat 3" by simp_all
  from backoff_sequence_capped [of 3 1 16 2] h v show ?thesis by simp
qed

text \<open>
  The first value is not \<open>base\<close> when \<open>base\<close> exceeds \<open>cap\<close>: the first value
  yielded is \<open>min(delay, cap)\<close>.
\<close>

theorem backoff_first_value_counterexample:
  "backoff_sequence 1 20 16 2 = [16] \<and> hd (backoff_sequence 1 20 16 2) \<noteq> 20"
  by (simp add: backoff_sequence_def)

section \<open>Properties of the language selection\<close>

lemma try_one_exact:
  "\<not> endswith pat ''-'' \<Longrightarrow>
   try_patterns (pat # pats) keys = (if pat \<in> set keys then Some pat else try_patterns pats keys)"
  by simp

lemma try_one_prefix:
  "endswith pat ''-'' \<Longrightarrow>
   try_patterns (pat # pats) keys =
     (case find (prefix pat) keys of Some k \<Rightarrow> Some k | None \<Rightarrow> try_patterns pats keys)"
proof -
  have "(\<lambda>k. startswith k pat) = prefix pat"
    by (simp add: fun_eq_iff startswith_def)
  then show "endswith pat ''-'' \<Longrightarrow> ?thesis" by simp
qed

lemma endswith_hyphen_append: "endswith (code @ ''-'') ''-''"
  by (simp add: endswith_def suffix_def)

lemma endswith_auto_prefix: "endswith (''a.'' @ code) ''-'' = endswith code ''-''"
proof (cases code rule: rev_cases)
  case Nil
  then show ?thesis by (simp add: endswith_def suffix_def)
next
  case (snoc ys y)
  then show ?thesis by (simp add: endswith_def suffix_def)
qed

lemma try_three:
  assumes "\<not> endswith code ''-''"
  shows "try_patterns (code # (code @ ''-'') # (''a.'' @ code) # pats) keys =
           (case spec_three_checks code keys of
              Some k \<Rightarrow> Some k
            | None \<Rightarrow> try_patterns pats keys)"
proof -
  have a: "\<not> endswith (''a.'' @ code) ''-''"
    using assms endswith_auto_prefix [of code] by blast
  have e: "(\<lambda>k. startswith k (code @ ''-'')) = prefix (code @ ''-'')"
    by (simp add: fun_eq_iff startswith_def)
  from assms a endswith_hyphen_append [of code] e show ?thesis
    by (simp add: spec_three_checks_def split: option.splits)
qed

text \<open>
  C1, as the code has it.  For every mapping and every preferred and fallback code
  that does not itself end in a hyphen, the selection is the first match in the
  order: exact preferred key, first key (in iteration order) starting with the
  preferred code and a hyphen, the exact key \<open>a.\<close> followed by the preferred code,
  then the same three checks for the fallback code, and no match otherwise.  For the
  keys \<open>en\<close>, \<open>en-US\<close>, \<open>a.en\<close>, \<open>ko\<close> and the preference \<open>(en, ko)\<close> the result is
  \<open>en\<close>; for the single key \<open>fr\<close> it is no match.
\<close>

theorem best_lang_key_order:
  "(\<not> endswith pref ''-'' \<and> \<not> endswith fb ''-'' \<longrightarrow>
      best_lang_key available pref fb = spec_best_lang_key available pref fb)
   \<and> best_lang_key [(''en'', a), (''en-US'', b), (''a.en'', c), (''ko'', d)] ''en'' ''ko''
       = Some ''en''
   \<and> best_lang_key [(''fr'', a)] ''en'' ''ko'' = None"
proof (intro conjI impI)
  assume h: "\<not> endswith pref ''-'' \<and> \<not> endswith fb ''-''"
  then have p: "\<not> endswith pref ''-''" and f: "\<not> endswith fb ''-''" by simp_all
  show "best_lang_key available pref fb = spec_best_lang_key available pref fb"
    unfolding best_lang_key_def spec_best_lang_key_def try_three [OF p] try_three [OF f]
    by (simp split: option.splits)
next
  show "best_lang_key [(''en'', a), (''en-US'', b), (''a.en'', c), (''ko'', d)] ''en'' ''ko''
       = Some ''en''"
    by (simp add: best_lang_key_def endswith_def suffix_def)
next
  show "best_lang_key [(''fr'', a)] ''en'' ''ko'' = None"
    by (simp add: best_lang_key_def endswith_def startswith_def suffix_def)
qed

theorem best_lang_key_order_witness:
  "\<not> endswith ''en'' ''-'' \<and> \<not> endswith ''ko'' ''-''
   \<and> best_lang_key [(''en-GB'', ()), (''ko'', ()), (''en-US'', ())] ''en'' ''ko'' = Some ''en-GB''
   \<and> spec_best_lang_key [(''en-GB'', ()), (''ko'', ()), (''en-US'', ())] ''en'' ''ko''
       = Some ''en-GB''"
proof -
  have h: "\<not> endswith ''en'' ''-'' \<and> \<not> endswith ''ko'' ''-''"
    by (simp add: endswith_def suffix_def)
  have s: "spec_best_lang_key [(''en-GB'', ()), (''ko'', ()), (''en-US'', ())] ''en'' ''ko''
       = Some ''en-GB''"
    by (simp add: spec_best_lang_key_def spec_three_checks_def)
  from best_lang_key_order [of "''en''" "''ko''"
      "[(''en-GB'', ()), (''ko'', ()), (''en-US'', ())]" "()" "()" "()" "()"] h s
  show ?thesis by simp
qed

text \<open>
  The code tells a prefix pattern from an exact one by the pattern's last
  character.  A preferred code that ends in a hyphen is therefore matched as a
  prefix, where the order of the specification looks for it as an exact key.
\<close>

theorem best_lang_key_hyphen_counterexample:
  "best_lang_key [(''en-US'', ())] ''en-'' ''ko'' = Some ''en-US''
   \<and> spec_best_lang_key [(''en-US'', ())] ''en-'' ''ko'' = None"
  by (simp add: best_lang_key_def spec_best_lang_key_def spec_three_checks_def
      endswith_def startswith_def suffix_def)

section \<open>Properties of the structured-event parser\<close>

lemma json3_loop_eq:
  "json3_loop evs (i, sgs, full) =
     (i + length (filter retained evs),
      sgs @ number_events i (filter retained evs),
      full @ map event_text (filter retained evs))"
  by (induction evs arbitrary: i sgs full) (simp_all add: retained_def event_segment_def)

lemma parse_events_eq:
  "parse_events evs =
     (number_events 0 (filter retained evs), join_sp (map event_text (filter retained evs)))"
  by (simp add: parse_events_def json3_loop_eq)

lemma number_events_idx: "map idx (number_events i xs) = [i..<i + length xs]"
  by (induction xs arbitrary: i) (simp_all add: event_segment_def upt_rec)

lemma number_events_text: "map seg_text (number_events i xs) = map event_text xs"
  by (induction xs arbitrary: i) (simp_all add: event_segment_def)



lemma length_number_events: "length (number_events i xs) = length xs"
  by (induction xs arbitrary: i) simp_all


lemma parse_events_idx: "map idx (fst (parse_events evs)) = [0..<length (fst (parse_events evs))]"
  using number_events_idx [of 0 "filter retained evs"]
  by (simp add: parse_events_eq length_number_events)

lemma parse_events_text: "snd (parse_events evs) = join_sp (map seg_text (fst (parse_events evs)))"
  by (simp add: parse_events_eq number_events_text)



section \<open>Properties of the cue parser\<close>

lemma cue_body_eq:
  "cue_body acc ls =
     (acc @ filter (\<lambda>l. \<not> startswith l ''NOTE'') (takeWhile is_body_line ls),
      dropWhile is_body_line ls)"
  by (induction ls arbitrary: acc) (simp_all add: is_body_line_def)

lemma match_classes_Cons:
  "match_classes (k # ks) s \<longleftrightarrow> (\<exists>c cs. s = c # cs \<and> in_class k c \<and> match_classes ks cs)"
  by (cases s) simp_all

lemma prefix_contains: "prefix p s \<Longrightarrow> contains s p"
  by (cases s) simp_all

lemma contains_append: "contains (xs @ p @ ys) p"
  by (induction xs) (simp_all add: prefix_contains)

lemma search_contains:
  assumes "VTT_TS_search line = Some g"
  shows "contains line ''-->''"
proof -
  from assms have m: "match_classes VTT_TS_classes line"
    by (simp add: VTT_TS_search_def split: if_splits)
  then obtain a where "line = take 13 line @ ''-->'' @ a"
    by (auto simp add: VTT_TS_classes_def hms_classes_def match_classes_Cons)
  then show ?thesis using contains_append [of "take 13 line" "''-->''" a] by simp
qed

lemma vtt_loop_eq:
  "vtt_loop lines (i, sgs, full) =
     (i + length (filter emitted (vtt_cues lines)),
      sgs @ number_cues i (filter emitted (vtt_cues lines)),
      full @ map cue_words (filter emitted (vtt_cues lines)))"
proof (induction lines arbitrary: i sgs full rule: vtt_cues.induct)
  case 1
  then show ?case by simp
next
  case (2 line rest)
  show ?case
  proof (cases "VTT_TS_search line")
    case None
    from "2.IH"(1) [OF None] None show ?thesis by simp
  next
    case (Some g)
    obtain h m s h2 m2 s2 where g: "g = (h, m, s, h2, m2, s2)" by (cases g) auto
    from Some have c: "contains line ''-->''" by (rule search_contains)
    from "2.IH"(2) [OF Some [unfolded g] refl refl refl refl refl] Some g c
    show ?thesis
      by (simp add: cue_body_eq emitted_def cue_words_def cue_segment_def Let_def)
  qed
qed

lemma parse_webvtt_eq:
  "parse_webvtt t =
     (number_cues 0 (filter emitted (vtt_cues (map clean_line (splitlines t)))),
      join_sp (map cue_words (filter emitted (vtt_cues (map clean_line (splitlines t))))))"
  by (simp add: parse_webvtt_def vtt_loop_eq)

lemma number_cues_idx: "map idx (number_cues i cs) = [i..<i + length cs]"
  by (induction cs arbitrary: i) (simp_all add: cue_segment_def upt_rec)

lemma number_cues_text: "map seg_text (number_cues i cs) = map cue_words cs"
  by (induction cs arbitrary: i) (simp_all add: cue_segment_def)

lemma number_cues_start: "map start_sec (number_cues i cs) = map cue_start cs"
  by (induction cs arbitrary: i) (simp_all add: cue_segment_def)

lemma number_cues_dur:
  "map dur_sec (number_cues i cs) = map (\<lambda>c. max 0 (cue_end c - cue_start c)) cs"
  by (induction cs arbitrary: i) (simp_all add: cue_segment_def)

lemma length_number_cues: "length (number_cues i cs) = length cs"
  by (induction cs arbitrary: i) simp_all

lemma parse_webvtt_idx: "map idx (fst (parse_webvtt t)) = [0..<length (fst (parse_webvtt t))]"
  using number_cues_idx [of 0 "filter emitted (vtt_cues (map clean_line (splitlines t)))"]
  by (simp add: parse_webvtt_eq length_number_cues)

lemma parse_webvtt_text: "snd (parse_webvtt t) = join_sp (map seg_text (fst (parse_webvtt t)))"
  by (simp add: parse_webvtt_eq number_cues_text)

lemma int_of_digits_2: "int_of_digits [a, b] = 10 * digit_val a + digit_val b"
  by (simp add: int_of_digits_def)

lemma int_of_digits_3: "int_of_digits [a, b, c] = 100 * digit_val a + 10 * digit_val b + digit_val c"
  by (simp add: int_of_digits_def)

text \<open>
  C3.  The segments of the cue parser are the emitted cues of the text, in their
  order and numbered from zero without a gap, where a cue is emitted exactly when
  its text is not empty; that text joins the lines of the body that do not begin
  with \<open>NOTE\<close>.  The duration of a segment is the end minus the start, floored at
  zero, hence zero for a cue that ends before it starts, and never negative.  A
  time \<open>hh:mm:ss.fff\<close> is \<open>h * 3600 + m * 60 + s\<close> seconds.
\<close>

theorem parse_webvtt_cues:
  "fst (parse_webvtt t) =
     number_cues 0 (filter emitted (vtt_cues (map clean_line (splitlines t))))
   \<and> (\<forall>c. emitted c \<longleftrightarrow>
         strip (replace_nl (join_sp (filter (\<lambda>l. \<not> startswith l ''NOTE'') (cue_lines c)))) \<noteq> [])
   \<and> map seg_text (fst (parse_webvtt t)) =
       map (\<lambda>c. strip (replace_nl (join_sp
                   (filter (\<lambda>l. \<not> startswith l ''NOTE'') (cue_lines c)))))
         (filter emitted (vtt_cues (map clean_line (splitlines t))))
   \<and> [] \<notin> set (map seg_text (fst (parse_webvtt t)))
   \<and> map idx (fst (parse_webvtt t)) = [0..<length (fst (parse_webvtt t))]
   \<and> map dur_sec (fst (parse_webvtt t)) =
       map (\<lambda>c. max 0 (cue_end c - cue_start c))
         (filter emitted (vtt_cues (map clean_line (splitlines t))))
   \<and> (\<forall>i c. cue_end c < cue_start c \<longrightarrow> dur_sec (cue_segment i c) = 0)
   \<and> (\<forall>sg \<in> set (fst (parse_webvtt t)). 0 \<le> dur_sec sg)
   \<and> hms_to_sec [h1, h2] [m1, m2] [s1, s2, CHR ''.'', f1, f2, f3] =
       real ((10 * digit_val h1 + digit_val h2) * 3600
             + (10 * digit_val m1 + digit_val m2) * 60)
       + (real (10 * digit_val s1 + digit_val s2)
          + real (100 * digit_val f1 + 10 * digit_val f2 + digit_val f3) / 1000)"
proof -
  let ?cs = "filter emitted (vtt_cues (map clean_line (splitlines t)))"
  have segs: "fst (parse_webvtt t) = number_cues 0 ?cs"
    by (simp add: parse_webvtt_eq)
  have em: "\<forall>c. emitted c \<longleftrightarrow>
      strip (replace_nl (join_sp (filter (\<lambda>l. \<not> startswith l ''NOTE'') (cue_lines c)))) \<noteq> []"
    by (simp add: emitted_def cue_words_def cue_text_def)
  have texts: "map seg_text (fst (parse_webvtt t)) =
      map (\<lambda>c. strip (replace_nl (join_sp
                  (filter (\<lambda>l. \<not> startswith l ''NOTE'') (cue_lines c))))) ?cs"
    by (simp add: segs number_cues_text cue_words_def cue_text_def)
  have nonempty: "[] \<notin> set (map seg_text (fst (parse_webvtt t)))"
    by (auto simp: segs number_cues_text emitted_def)
  have durs: "map dur_sec (fst (parse_webvtt t)) =
      map (\<lambda>c. max 0 (cue_end c - cue_start c)) ?cs"
    by (simp add: segs number_cues_dur)
  have neg: "\<forall>i c. cue_end c < cue_start c \<longrightarrow> dur_sec (cue_segment i c) = 0"
    by (simp add: cue_segment_def)
  have "\<forall>d \<in> set (map dur_sec (fst (parse_webvtt t))). 0 \<le> d"
    unfolding durs by auto
  then have pos: "\<forall>sg \<in> set (fst (parse_webvtt t)). 0 \<le> dur_sec sg"
    by simp
  have hms: "hms_to_sec [h1, h2] [m1, m2] [s1, s2, CHR ''.'', f1, f2, f3] =
       real ((10 * digit_val h1 + digit_val h2) * 3600
             + (10 * digit_val m1 + digit_val m2) * 60)
       + (real (10 * digit_val s1 + digit_val s2)
          + real (100 * digit_val f1 + 10 * digit_val f2 + digit_val f3) / 1000)"
    by (simp add: hms_to_sec_def float_of_sec_def int_of_digits_2 int_of_digits_3)
  from segs em texts nonempty parse_webvtt_idx [of t] durs neg pos hms
  show ?thesis by blast
qed

lemma sample_lines:
  "map clean_line (splitlines sample_vtt) =
     [''WEBVTT'', [], ''00:00:01.000 --> 00:00:02.500'', ''hello'',
      ''NOTE this is a comment'', ''world'', [],
      ''00:00:05.000 --> 00:00:04.000'', ''back'']"
  by (simp add: sample_vtt_def splitlines_def is_linebreak_def clean_line_def
      strip_chars_def rstrip_def isspace_def)

lemma sample_cues:
  "vtt_cues (map clean_line (splitlines sample_vtt)) =
     [\<lparr>cue_start = 1, cue_end = 5 / 2,
       cue_lines = [''hello'', ''NOTE this is a comment'', ''world'']\<rparr>,
      \<lparr>cue_start = 5, cue_end = 4, cue_lines = [''back'']\<rparr>]"
  unfolding sample_lines
  by (simp add: VTT_TS_search_def VTT_TS_classes_def hms_classes_def isdigit_def isspace_def
      hms_to_sec_def float_of_sec_def int_of_digits_def digit_val_def is_body_line_def)

lemma sample_words:
  "cue_words \<lparr>cue_start = 1, cue_end = 5 / 2,
              cue_lines = [''hello'', ''NOTE this is a comment'', ''world'']\<rparr> = ''hello world''"
  "cue_words \<lparr>cue_start = 5, cue_end = 4, cue_lines = [''back'']\<rparr> = ''back''"
  by (simp_all add: cue_words_def cue_text_def startswith_def strip_def lstrip_def
      rstrip_def replace_nl_def isspace_def)

lemma sample_parse:
  "parse_webvtt sample_vtt =
     ([\<lparr>idx = 0, start_sec = 1, dur_sec = 3 / 2, seg_text = ''hello world''\<rparr>,
       \<lparr>idx = 1, start_sec = 5, dur_sec = 0, seg_text = ''back''\<rparr>], ''hello world back'')"
  unfolding parse_webvtt_eq sample_cues
  by (simp add: emitted_def sample_words cue_segment_def)

theorem parse_webvtt_cues_witness:
  "fst (parse_webvtt sample_vtt) =
     [\<lparr>idx = 0, start_sec = 1, dur_sec = 3 / 2, seg_text = ''hello world''\<rparr>,
      \<lparr>idx = 1, start_sec = 5, dur_sec = 0, seg_text = ''back''\<rparr>]
   \<and> cue_end \<lparr>cue_start = 5, cue_end = 4, cue_lines = [''back'']\<rparr>
       < cue_start \<lparr>cue_start = 5, cue_end = 4, cue_lines = [''back'']\<rparr>
   \<and> dur_sec (cue_segment 1 \<lparr>cue_start = 5, cue_end = 4, cue_lines = [''back'']\<rparr>) = 0
   \<and> hms_to_sec ''01'' ''02'' ''03.250'' = 3723.25"
proof -
  have d: "digit_val CHR ''0'' = 0" "digit_val CHR ''1'' = 1" "digit_val CHR ''2'' = 2"
    "digit_val CHR ''3'' = 3" "digit_val CHR ''5'' = 5"
    by (simp_all add: digit_val_def)
  from parse_webvtt_cues [of sample_vtt "CHR ''0''" "CHR ''1''" "CHR ''0''" "CHR ''2''"
      "CHR ''0''" "CHR ''3''" "CHR ''2''" "CHR ''5''" "CHR ''0''"]
  show ?thesis
    unfolding sample_cues
    by (simp add: emitted_def sample_words cue_segment_def d)
qed

section \<open>Properties of the acquisition\<close>

lemma parse_json3_events_Inr:
  assumes "parse_json3_events d = Inr (evs, ftext)"
  shows "ftext = join_sp (map seg_text evs) \<and> map idx evs = [0..<length evs]"
proof -
  from assms obtain es where "parse_events es = (evs, ftext)"
    by (auto simp: parse_json3_events_def split: json3.splits option.splits)
  with parse_events_text [of es] parse_events_idx [of es] show ?thesis by simp
qed

lemma parse_webvtt_pair:
  assumes "parse_webvtt t = (evs, ftext)"
  shows "ftext = join_sp (map seg_text evs) \<and> map idx evs = [0..<length evs]"
  using assms parse_webvtt_text [of t] parse_webvtt_idx [of t] by simp

lemma api_attempt_track:
  assumes "api_attempt b vid pref fb c w = (Inr (Some r), w1)"
  shows "track_result vid r"
  using assms
  unfolding api_attempt_def Let_def track_result_def
  by (auto split: prod.splits sum.splits option.splits if_splits json3.splits
      dest!: parse_json3_events_Inr)

lemma json3_url_attempt_track:
  assumes "json3_url_attempt b vid k u w = (Inr (Some r), w1)"
  shows "track_result vid r"
  using assms
  unfolding json3_url_attempt_def track_result_def
  by (auto split: prod.splits sum.splits option.splits if_splits
      dest!: parse_json3_events_Inr)

lemma vtt_url_attempt_track:
  assumes "vtt_url_attempt b vid k u w = (Inr (Some r), w1)"
  shows "track_result vid r"
  using assms
  unfolding vtt_url_attempt_def track_result_def
  by (auto split: prod.splits sum.splits option.splits if_splits
      dest!: parse_webvtt_pair)

lemma try_encodings_track:
  assumes "try_encodings b vid k entries w = (Inr r, w1)"
  shows "r = ([], None) \<or> track_result vid r"
  using assms
  unfolding try_encodings_def Let_def
  by (auto split: prod.splits sum.splits option.splits
      dest: json3_url_attempt_track vtt_url_attempt_track)

lemma url_attempt_cases:
  "case url_attempt b vid pref fb c w of
     (Inl e, w1) \<Rightarrow> True
   | (Inr r, w1) \<Rightarrow> r = ([], None) \<or> track_result vid r"
  unfolding url_attempt_def Let_def
  by (auto split: prod.splits sum.splits option.splits dest: try_encodings_track)

lemma url_attempt_track:
  assumes "url_attempt b vid pref fb c w = (Inr r, w1)"
  shows "r = ([], None) \<or> track_result vid r"
  using url_attempt_cases [where b=b and vid=vid and pref=pref and fb=fb and c=c and w=w] assms
  by simp

lemma url_stage_track:
  assumes "url_stage b vid pref fb c w = (Inr r, w1)"
  shows "r = ([], None) \<or> track_result vid r"
  using assms unfolding url_stage_def
  by (auto split: prod.splits sum.splits dest: url_attempt_track)

lemma fetch_track:
  assumes "fetch_subs_for_video b vid pref fb c w = (Inr r, w1)"
  shows "r = ([], None) \<or> track_result vid r"
  using assms unfolding fetch_subs_for_video_def
  by (auto split: prod.splits sum.splits option.splits
      dest: url_stage_track api_attempt_track)



lemma sample_vtt_nonempty: "sample_vtt \<noteq> []"
  by (simp add: sample_vtt_def)

lemma sample_api:
  "api_attempt sample_backend ''v1'' ''en'' ''ko'' None w =
     (Inl (OtherException ''DownloadError''), Suc w)"
  by (simp add: api_attempt_def sample_backend_def)

lemma sample_download: "download_text sample_backend ''u'' w = (Inr (Some sample_vtt), Suc w)"
  by (simp add: download_text_def backoff_sequence_def eval_nat_numeral sample_backend_def)

lemma sample_stage:
  "url_stage sample_backend ''v1'' ''en'' ''ko'' None w =
     (Inr ([\<lparr>idx = 0, start_sec = 1, dur_sec = 3 / 2, seg_text = ''hello world'',
              video_id = ''v1'', lang = ''en''\<rparr>,
            \<lparr>idx = 1, start_sec = 5, dur_sec = 0, seg_text = ''back'',
              video_id = ''v1'', lang = ''en''\<rparr>],
           Some \<lparr>full_video_id = ''v1'', full_lang = ''en'',
                 full_text = ''hello world back''\<rparr>), Suc (Suc w))"
proof -
  have i: "extract_info sample_backend (Plain_opts None) (watch_url ''v1'') w =
      (Inr (Some \<lparr>requested_subtitles = None, subtitles = None,
                   automatic_captions =
                     Some [(''en'', [\<lparr>ext = Some ''vtt'', url = Some ''u''\<rparr>])]\<rparr>), Suc w)"
    by (simp add: sample_backend_def)
  have k: "pick_key [(''en'', [\<lparr>ext = Some ''vtt'', url = Some ''u''\<rparr>])] ''en'' ''ko''
      = Some ''en''"
    by (simp add: pick_key_def best_lang_key_def endswith_def suffix_def)
  have e: "try_encodings sample_backend ''v1'' ''en''
             [\<lparr>ext = Some ''vtt'', url = Some ''u''\<rparr>] w' =
      (Inr (make_rows ''v1'' ''en'' (fst (parse_webvtt sample_vtt))
              (snd (parse_webvtt sample_vtt))), Suc w')" for w'
    by (simp add: try_encodings_def first_url_def json3_url_attempt_def vtt_url_attempt_def
        sample_download sample_vtt_nonempty sample_parse)
  show ?thesis
    by (simp add: url_stage_def url_attempt_def cookiefile_def i k e sample_parse make_rows_def)
qed

lemma sample_fetch:
  "fetch_subs_for_video sample_backend ''v1'' ''en'' ''ko'' None 0 =
     (Inr ([\<lparr>idx = 0, start_sec = 1, dur_sec = 3 / 2, seg_text = ''hello world'',
              video_id = ''v1'', lang = ''en''\<rparr>,
            \<lparr>idx = 1, start_sec = 5, dur_sec = 0, seg_text = ''back'',
              video_id = ''v1'', lang = ''en''\<rparr>],
           Some \<lparr>full_video_id = ''v1'', full_lang = ''en'',
                 full_text = ''hello world back''\<rparr>), 3)"
  by (simp add: fetch_subs_for_video_def sample_api sample_stage eval_nat_numeral)

text \<open>
  C5.  Whenever the acquisition returns a track, its \<open>full_text\<close> is the space-join
  of the \<open>text\<close> entries of its segments, in their order, cut to its first 1,000,000
  characters; it is that join itself whenever the join has at most 1,000,000
  characters, and has 1,000,000 characters whenever the join is longer.
\<close>

theorem full_text_round_trip:
  assumes "fetch_subs_for_video b vid pref fb c w = (Inr (segments, Some full), w1)"
  shows "full_text full = take 1000000 (join_sp (map seg_text segments))
         \<and> length (full_text full) \<le> 1000000
         \<and> (length (join_sp (map seg_text segments)) \<le> 1000000 \<longrightarrow>
              full_text full = join_sp (map seg_text segments))
         \<and> (1000000 < length (join_sp (map seg_text segments)) \<longrightarrow>
              length (full_text full) = 1000000)"
proof -
  from fetch_track [OF assms] have "track_result vid (segments, Some full)" by simp
  then obtain k evs where
    r: "(segments, Some full) = make_rows vid k evs (join_sp (map seg_text evs))"
    unfolding track_result_def by blast
  then have t: "map seg_text segments = map seg_text evs"
    by (auto simp: make_rows_def comp_def)
  from r have "full_text full = take 1000000 (join_sp (map seg_text evs))"
    by (auto simp: make_rows_def)
  with t have eq: "full_text full = take 1000000 (join_sp (map seg_text segments))"
    by simp
  then show ?thesis by simp
qed

theorem full_text_round_trip_witness:
  "fetch_subs_for_video sample_backend ''v1'' ''en'' ''ko'' None 0 =
     (Inr ([\<lparr>idx = 0, start_sec = 1, dur_sec = 3 / 2, seg_text = ''hello world'',
              video_id = ''v1'', lang = ''en''\<rparr>,
            \<lparr>idx = 1, start_sec = 5, dur_sec = 0, seg_text = ''back'',
              video_id = ''v1'', lang = ''en''\<rparr>],
           Some \<lparr>full_video_id = ''v1'', full_lang = ''en'',
                 full_text = ''hello world back''\<rparr>), 3)
   \<and> ''hello world back'' = take 1000000 (join_sp [''hello world'', ''back''])
   \<and> ''hello world back'' = join_sp [''hello world'', ''back'']"
  using full_text_round_trip [OF sample_fetch] sample_fetch by simp





section \<open>Properties of the query service\<close>

lemma request_query_retrieval:
  "request_query svc payload = Inr q \<Longrightarrow> \<not> is_generation q"
  by (auto simp: request_query_def Let_def is_generation_def split: sum.splits if_splits)

lemma ask_no_query:
  "request_query svc payload = Inl e \<Longrightarrow> ask svc payload w = (HTTPException_500 e, ([], w))"
  by (simp add: ask_def ask_body_def)

lemma ask_retrieval_raises:
  "request_query svc payload = Inr q \<Longrightarrow> run_retrieval svc q w = (Inl e, w1) \<Longrightarrow>
   ask svc payload w = (HTTPException_500 e, ([q], w1))"
  by (simp add: ask_def ask_body_def issue_retrieval_def)

lemma ask_no_rows:
  "request_query svc payload = Inr q \<Longrightarrow> run_retrieval svc q w = (Inr [], w1) \<Longrightarrow>
   ask svc payload w =
     (JSONResponse \<lparr>summary_text = ''No review candidates matched your question or filters.'',
                    citations = []\<rparr>, ([q], w1))"
  by (simp add: ask_def ask_body_def issue_retrieval_def)

lemma ask_rows:
  assumes "request_query svc payload = Inr q"
    and "run_retrieval svc q w = (Inr rows, w1)"
    and "rows \<noteq> []"
  shows "\<exists>p. fst (snd (ask svc payload w)) = [q, Generation p]"
  using assms
  by (auto simp: ask_def ask_body_def issue_retrieval_def issue_generation_def Let_def
      split: prod.splits sum.splits list.splits option.splits)

lemma ask_at_most_two: "length (fst (snd (ask svc payload w))) \<le> 2"
proof (cases "request_query svc payload")
  case (Inl e)
  then show ?thesis by (simp add: ask_no_query)
next
  case (Inr q)
  obtain r w1 where rr: "run_retrieval svc q w = (r, w1)"
    by (cases "run_retrieval svc q w")
  show ?thesis
  proof (cases r)
    case (Inl e)
    with Inr rr show ?thesis by (simp add: ask_retrieval_raises)
  next
    case r: (Inr rows)
    show ?thesis
    proof (cases "rows = []")
      case True
      with Inr rr r show ?thesis by (simp add: ask_no_rows)
    next
      case False
      with ask_rows [OF Inr] rr r
      obtain p where "fst (snd (ask svc payload w)) = [q, Generation p]"
        by blast
      then show ?thesis by simp
    qed
  qed
qed

text \<open>
  C9.  The log of a request holds the warehouse queries issued for it.  If the
  retrieval query of the request returns no row, the response has the summary
  \<open>No review candidates matched your question or filters.\<close> and no citation, and
  the retrieval is the only query issued.  If it returns at least one row, the
  queries issued are the retrieval and exactly one generation.  In every case at
  most two queries are issued, and none when the request is refused before the
  retrieval.
\<close>

theorem ask_queries:
  "length (fst (snd (ask svc payload w))) \<le> 2
   \<and> (\<forall>q w1. request_query svc payload = Inr q \<and> run_retrieval svc q w = (Inr [], w1) \<longrightarrow>
         ask svc payload w =
           (JSONResponse
              \<lparr>summary_text = ''No review candidates matched your question or filters.'',
               citations = []\<rparr>, ([q], w1))
         \<and> filter is_generation (fst (snd (ask svc payload w))) = [])
   \<and> (\<forall>q rows w1. request_query svc payload = Inr q
          \<and> run_retrieval svc q w = (Inr rows, w1) \<and> rows \<noteq> [] \<longrightarrow>
         (\<exists>p. fst (snd (ask svc payload w)) = [q, Generation p])
         \<and> length (filter is_generation (fst (snd (ask svc payload w)))) = 1)
   \<and> (\<forall>e. request_query svc payload = Inl e \<longrightarrow> fst (snd (ask svc payload w)) = [])"
proof (intro conjI allI impI)
  show "length (fst (snd (ask svc payload w))) \<le> 2"
    by (rule ask_at_most_two)
next
  fix q w1
  assume h: "request_query svc payload = Inr q \<and> run_retrieval svc q w = (Inr [], w1)"
  then show "ask svc payload w =
           (JSONResponse
              \<lparr>summary_text = ''No review candidates matched your question or filters.'',
               citations = []\<rparr>, ([q], w1))"
    by (simp add: ask_no_rows)
  with h show "filter is_generation (fst (snd (ask svc payload w))) = []"
    by (auto dest: request_query_retrieval)
next
  fix q rows w1
  assume h: "request_query svc payload = Inr q
          \<and> run_retrieval svc q w = (Inr rows, w1) \<and> rows \<noteq> []"
  then show ex: "\<exists>p. fst (snd (ask svc payload w)) = [q, Generation p]"
    by (blast dest: ask_rows)
  from h have "\<not> is_generation q" by (auto dest: request_query_retrieval)
  with ex show "length (filter is_generation (fst (snd (ask svc payload w)))) = 1"
    by (auto simp: is_generation_def)
next
  fix e assume "request_query svc payload = Inl e"
  then show "fst (snd (ask svc payload w)) = []"
    by (simp add: ask_no_query)
qed

lemma sample_query:
  "request_query sample_service [(''question'', JStr t)] =
     (if strip t = [] then Inl (OtherException ''HTTPException 400'')
      else Inr (Retrieval (strip t) ''en'' False 0 0 5))"
  by (simp add: request_query_def get_or_def truthy_def py_str_def py_int_def strip_def
      lstrip_def rstrip_def)

lemma sample_strip: "strip '' spa? '' = ''spa?''" "strip ''pool'' = ''pool''"
  by (simp_all add: strip_def lstrip_def rstrip_def isspace_def)

theorem ask_queries_witness:
  "request_query sample_service [(''question'', JStr '' spa? '')] =
     Inr (Retrieval ''spa?'' ''en'' False 0 0 5)
   \<and> run_retrieval sample_service (Retrieval ''spa?'' ''en'' False 0 0 5) 0 = (Inr [], 1)
   \<and> ask sample_service [(''question'', JStr '' spa? '')] 0 =
       (JSONResponse
          \<lparr>summary_text = ''No review candidates matched your question or filters.'',
           citations = []\<rparr>, ([Retrieval ''spa?'' ''en'' False 0 0 5], 1))
   \<and> request_query sample_service [(''question'', JStr ''pool'')] =
       Inr (Retrieval ''pool'' ''en'' False 0 0 5)
   \<and> run_retrieval sample_service (Retrieval ''pool'' ''en'' False 0 0 5) 0
       = (Inr [sample_row], 1)
   \<and> length (filter is_generation (fst (snd (ask sample_service [(''question'', JStr ''pool'')] 0))))
       = 1
   \<and> request_query sample_service [] = Inl (OtherException ''HTTPException 400'')
   \<and> fst (snd (ask sample_service [] 0)) = []"
proof -
  have q1: "request_query sample_service [(''question'', JStr '' spa? '')] =
     Inr (Retrieval ''spa?'' ''en'' False 0 0 5)"
    by (simp add: sample_query sample_strip)
  have r1: "run_retrieval sample_service (Retrieval ''spa?'' ''en'' False 0 0 5) 0 = (Inr [], 1)"
    by (simp add: sample_service_def)
  have q2: "request_query sample_service [(''question'', JStr ''pool'')] =
       Inr (Retrieval ''pool'' ''en'' False 0 0 5)"
    by (simp add: sample_query sample_strip)
  have r2: "run_retrieval sample_service (Retrieval ''pool'' ''en'' False 0 0 5) 0
       = (Inr [sample_row], 1)"
    by (simp add: sample_service_def)
  have q3: "request_query sample_service [] = Inl (OtherException ''HTTPException 400'')"
    by (simp add: request_query_def get_or_def truthy_def py_str_def py_int_def strip_def
        lstrip_def rstrip_def)
  from ask_queries [of sample_service "[(''question'', JStr '' spa? '')]" 0] q1 r1
  have a1: "ask sample_service [(''question'', JStr '' spa? '')] 0 =
       (JSONResponse
          \<lparr>summary_text = ''No review candidates matched your question or filters.'',
           citations = []\<rparr>, ([Retrieval ''spa?'' ''en'' False 0 0 5], 1))"
    by blast
  from ask_queries [of sample_service "[(''question'', JStr ''pool'')]" 0] q2 r2
  have a2: "length (filter is_generation
      (fst (snd (ask sample_service [(''question'', JStr ''pool'')] 0)))) = 1"
    by blast
  from ask_queries [of sample_service "[]" 0] q3
  have a3: "fst (snd (ask sample_service [] 0)) = []"
    by blast
  from q1 r1 a1 q2 r2 a2 q3 a3 show ?thesis by blast
qed

section \<open>Properties of the upsert loader\<close>

lemma is_not_distinct_from_eq: "is_not_distinct_from a b \<longleftrightarrow> a = b"
  by (auto simp: is_not_distinct_from_def split: option.splits)

lemma merge_condition_spec: "merge_condition ks t s \<longleftrightarrow> ks \<noteq> [] \<and> spec_match ks t s"
  by (simp add: merge_condition_def spec_match_def is_not_distinct_from_eq)

lemma merge_condition_eq: "ks \<noteq> [] \<Longrightarrow> merge_condition ks = spec_match ks"
  by (simp add: fun_eq_iff merge_condition_spec)

lemma snippets_fixed_id: "snippets_fixed s = snippets s"
proof -
  have "(\<lambda>x::snippet. \<lparr>sn_idx = sn_idx x, sn_start = sn_start x, sn_end = sn_end x,
                sn_duration = sn_duration x, sn_text = sn_text x\<rparr>) = (\<lambda>x. x)"
    by (rule ext) simp
  then show ?thesis by (simp add: snippets_fixed_def)
qed

lemma insert_values_id: "insert_values s = s"
  by (simp add: insert_values_def snippets_fixed_id)

lemma update_set_eq: "update_set t s = s\<lparr>raw_video_id := raw_video_id t\<rparr>"
  by (simp add: update_set_def snippets_fixed_id)













lemma merge_stmt_cases:
  "merge_stmt keys wh = (None, wh1) \<longleftrightarrow>
     (\<exists>stg ks. tmp wh = Some stg \<and> resolve_keys keys = Some ks
        \<and> \<not> list_ex (\<lambda>t. 1 < length (filter (merge_condition ks t) stg)) (dest wh)
        \<and> wh1 = wh\<lparr>dest := merged ks (dest wh) stg\<rparr>)"
  by (auto simp: merge_stmt_def split: option.splits)

lemma upsert_success:
  assumes "rows \<noteq> []"
  shows "upsert_subtitles_raw rows dedupe_on wh = (None, wh1) \<longleftrightarrow>
     (\<exists>ks. resolve_keys (dedupe_keys dedupe_on) = Some ks
        \<and> \<not> list_ex (\<lambda>t. 1 < length (filter (merge_condition ks t) (map fix_row rows))) (dest wh)
        \<and> wh1 = \<lparr>dest = merged ks (dest wh) (map fix_row rows), tmp = None\<rparr>)"
proof -
  have "upsert_subtitles_raw rows dedupe_on wh = (None, wh1) \<longleftrightarrow>
     (\<exists>wh'. merge_stmt (dedupe_keys dedupe_on) (load_tmp (map fix_row rows) wh) = (None, wh')
         \<and> wh1 = delete_tmp wh')"
    using assms by (auto simp: upsert_subtitles_raw_def split: prod.splits option.splits)
  then show ?thesis
    unfolding merge_stmt_cases by (auto simp: load_tmp_def delete_tmp_def)
qed

lemma map_option_CStr_inj: "map_option CStr a = map_option CStr b \<longleftrightarrow> a = b"
  by (cases a; cases b) simp_all

lemma map_option_CInt_inj: "map_option CInt a = map_option CInt b \<longleftrightarrow> a = b"
  by (cases a; cases b) simp_all

lemma merged_spec:
  assumes "K_video_id \<in> set ks"
  shows "merged ks dst stg = spec_merge ks dst stg"
proof -
  from assms have ne: "ks \<noteq> []" by auto
  have upd: "update_set t s = spec_update ks t s" if "spec_match ks t s" for t s
  proof -
    from that have kv: "\<And>k. k \<in> set ks \<Longrightarrow> key_value k t = key_value k s"
      by (simp add: spec_match_def list_all_iff)
    have "K_subtitle_lang \<in> set ks \<Longrightarrow> subtitle_lang t = subtitle_lang s"
      "K_subtitle_text \<in> set ks \<Longrightarrow> subtitle_text t = subtitle_text s"
      "K_source \<in> set ks \<Longrightarrow> source t = source s"
      "K_snippet_count \<in> set ks \<Longrightarrow> snippet_count t = snippet_count s"
      "K_ingested_at \<in> set ks \<Longrightarrow> ingested_at t = ingested_at s"
      using kv [of K_subtitle_lang] kv [of K_subtitle_text] kv [of K_source]
        kv [of K_snippet_count] kv [of K_ingested_at]
      by (simp_all add: key_value_def map_option_CStr_inj map_option_CInt_inj)
    with assms show ?thesis
      by (simp add: update_set_def spec_update_def snippets_fixed_id)
  qed
  have "(case find (spec_match ks t) stg of None \<Rightarrow> t | Some s \<Rightarrow> update_set t s) =
        (case find (spec_match ks t) stg of None \<Rightarrow> t | Some s \<Rightarrow> spec_update ks t s)" for t
  proof (cases "find (spec_match ks t) stg")
    case None
    then show ?thesis by simp
  next
    case (Some s)
    then have "spec_match ks t s" by (auto simp: find_Some_iff)
    with Some show ?thesis by (simp add: upd)
  qed
  moreover have "map insert_values xs = xs" for xs
    by (induction xs) (simp_all add: insert_values_id)
  ultimately show ?thesis
    by (simp add: merged_def spec_merge_def merge_condition_eq [OF ne])
qed

lemma map_insert_values: "map insert_values xs = xs"
  by (induction xs) (simp_all add: insert_values_id)



lemma isspace_letters:
  "\<not> isspace CHR ''v''" "\<not> isspace CHR ''d''" "\<not> isspace CHR ''s''" "\<not> isspace CHR ''g''"
  by (simp_all add: isspace_def)

lemma default_keys: "dedupe_keys default_dedupe_on = [''video_id'', ''subtitle_lang'']"
  by (simp add: dedupe_keys_def default_dedupe_on_def strip_def lstrip_def rstrip_def
      isspace_letters)

lemma default_resolved:
  "resolve_keys (dedupe_keys default_dedupe_on) = Some [K_video_id, K_subtitle_lang]"
  by (simp add: default_keys column_of_def)

lemma sample_upsert:
  "upsert_subtitles_raw [row_a2, row_n2, row_b] default_dedupe_on
     \<lparr>dest = [row_a, row_n], tmp = None\<rparr> =
   (None, \<lparr>dest = [row_a2, row_n2, row_b], tmp = None\<rparr>)"
  by (simp add: upsert_subtitles_raw_def merge_stmt_def merged_def load_tmp_def delete_tmp_def
      default_resolved merge_condition_def key_value_def is_not_distinct_from_def
      update_set_def insert_values_def snippets_fixed_def fix_row_def fix_snippet_def
      row_a_def row_a2_def row_n_def row_n2_def row_b_def)



lemma lang_key:
  "resolve_keys (dedupe_keys ''subtitle_lang'') = Some [K_subtitle_lang]"
  by (simp add: dedupe_keys_def strip_def lstrip_def rstrip_def column_of_def isspace_letters)

lemma lang_upsert:
  "upsert_subtitles_raw [row_b] ''subtitle_lang'' \<lparr>dest = [row_a], tmp = None\<rparr> =
     (None, \<lparr>dest = [row_b\<lparr>raw_video_id := ''v1''\<rparr>], tmp = None\<rparr>)"
  "spec_merge [K_subtitle_lang] [row_a] [fix_row row_b] = [row_b]"
  by (simp_all add: upsert_subtitles_raw_def merge_stmt_def merged_def load_tmp_def delete_tmp_def
      lang_key merge_condition_def key_value_def is_not_distinct_from_def
      update_set_def insert_values_def snippets_fixed_def fix_row_def fix_snippet_def
      spec_merge_def spec_match_def spec_update_def
      row_a_def row_b_def)

text \<open>
  C7, as the code has it.  On an empty batch the loader does nothing.  On any other
  batch, whenever it ends without an exception, the staging table is gone and the
  destination table is the merge of the staged rows: a staged row matches a
  destination row when the two are equal on every key column of the list, \<open>NULL\<close>
  being equal to \<open>NULL\<close> only, and the list is not empty; a matched destination
  row takes every column but \<open>video_id\<close> from the staged row; a staged row without
  a match is inserted whole.  When \<open>video_id\<close> is one of the keys this is the merge
  that updates all columns that are no key.  The default key list is \<open>video_id\<close>,
  \<open>subtitle_lang\<close>.
\<close>

theorem upsert_subtitles_raw_merge:
  "upsert_subtitles_raw [] dedupe_on wh = (None, wh)
   \<and> (\<forall>wh1. rows \<noteq> [] \<and> upsert_subtitles_raw rows dedupe_on wh = (None, wh1) \<longrightarrow>
         (\<exists>ks. resolve_keys (dedupe_keys dedupe_on) = Some ks
            \<and> tmp wh1 = None
            \<and> dest wh1 =
                map (\<lambda>t. case find (merge_condition ks t) (map fix_row rows) of
                            None \<Rightarrow> t
                          | Some s \<Rightarrow> s\<lparr>raw_video_id := raw_video_id t\<rparr>) (dest wh)
                @ filter (\<lambda>s. \<not> list_ex (\<lambda>t. merge_condition ks t s) (dest wh))
                    (map fix_row rows)
            \<and> (\<forall>t s. merge_condition ks t s \<longleftrightarrow>
                   ks \<noteq> [] \<and> (\<forall>k \<in> set ks. key_value k t = key_value k s))
            \<and> (K_video_id \<in> set ks \<longrightarrow>
                 dest wh1 = spec_merge ks (dest wh) (map fix_row rows))))
   \<and> resolve_keys (dedupe_keys default_dedupe_on) = Some [K_video_id, K_subtitle_lang]"
proof (intro conjI allI impI)
  show "upsert_subtitles_raw [] dedupe_on wh = (None, wh)"
    by (simp add: upsert_subtitles_raw_def)
next
  fix wh1
  assume h: "rows \<noteq> [] \<and> upsert_subtitles_raw rows dedupe_on wh = (None, wh1)"
  then obtain ks where ks: "resolve_keys (dedupe_keys dedupe_on) = Some ks"
    and wh1: "wh1 = \<lparr>dest = merged ks (dest wh) (map fix_row rows), tmp = None\<rparr>"
    using upsert_success [of rows dedupe_on wh wh1] by blast
  have upd: "(\<lambda>t. case find (merge_condition ks t) (map fix_row rows) of
                    None \<Rightarrow> t
                  | Some s \<Rightarrow> update_set t s) =
             (\<lambda>t. case find (merge_condition ks t) (map fix_row rows) of
                    None \<Rightarrow> t
                  | Some s \<Rightarrow> s\<lparr>raw_video_id := raw_video_id t\<rparr>)"
    by (rule ext) (simp add: update_set_eq split: option.splits)
  have d: "dest wh1 =
      map (\<lambda>t. case find (merge_condition ks t) (map fix_row rows) of
                  None \<Rightarrow> t
                | Some s \<Rightarrow> s\<lparr>raw_video_id := raw_video_id t\<rparr>) (dest wh)
      @ filter (\<lambda>s. \<not> list_ex (\<lambda>t. merge_condition ks t s) (dest wh)) (map fix_row rows)"
    unfolding wh1 merged_def upd map_insert_values by simp
  have c: "\<forall>t s. merge_condition ks t s \<longleftrightarrow>
      ks \<noteq> [] \<and> (\<forall>k \<in> set ks. key_value k t = key_value k s)"
    by (simp add: merge_condition_spec spec_match_def list_all_iff)
  have sp: "K_video_id \<in> set ks \<longrightarrow> dest wh1 = spec_merge ks (dest wh) (map fix_row rows)"
    unfolding wh1 by (simp add: merged_spec)
  show "\<exists>ks. resolve_keys (dedupe_keys dedupe_on) = Some ks
            \<and> tmp wh1 = None
            \<and> dest wh1 =
                map (\<lambda>t. case find (merge_condition ks t) (map fix_row rows) of
                            None \<Rightarrow> t
                          | Some s \<Rightarrow> s\<lparr>raw_video_id := raw_video_id t\<rparr>) (dest wh)
                @ filter (\<lambda>s. \<not> list_ex (\<lambda>t. merge_condition ks t s) (dest wh))
                    (map fix_row rows)
            \<and> (\<forall>t s. merge_condition ks t s \<longleftrightarrow>
                   ks \<noteq> [] \<and> (\<forall>k \<in> set ks. key_value k t = key_value k s))
            \<and> (K_video_id \<in> set ks \<longrightarrow>
                 dest wh1 = spec_merge ks (dest wh) (map fix_row rows))"
  proof (intro exI [of _ ks] conjI)
    show "resolve_keys (dedupe_keys dedupe_on) = Some ks" by (rule ks)
    show "tmp wh1 = None" unfolding wh1 by simp
    show "dest wh1 =
                map (\<lambda>t. case find (merge_condition ks t) (map fix_row rows) of
                            None \<Rightarrow> t
                          | Some s \<Rightarrow> s\<lparr>raw_video_id := raw_video_id t\<rparr>) (dest wh)
                @ filter (\<lambda>s. \<not> list_ex (\<lambda>t. merge_condition ks t s) (dest wh))
                    (map fix_row rows)" by (rule d)
    show "\<forall>t s. merge_condition ks t s \<longleftrightarrow>
                   ks \<noteq> [] \<and> (\<forall>k \<in> set ks. key_value k t = key_value k s)" by (rule c)
    show "K_video_id \<in> set ks \<longrightarrow>
                 dest wh1 = spec_merge ks (dest wh) (map fix_row rows)" by (rule sp)
  qed
next
  show "resolve_keys (dedupe_keys default_dedupe_on) = Some [K_video_id, K_subtitle_lang]"
    by (rule default_resolved)
qed


theorem upsert_subtitles_raw_merge_witness:
  "[row_a2, row_n2, row_b] \<noteq> []
   \<and> upsert_subtitles_raw [row_a2, row_n2, row_b] default_dedupe_on
       \<lparr>dest = [row_a, row_n], tmp = None\<rparr> =
     (None, \<lparr>dest = [row_a2, row_n2, row_b], tmp = None\<rparr>)
   \<and> K_video_id \<in> set [K_video_id, K_subtitle_lang]
   \<and> spec_merge [K_video_id, K_subtitle_lang] [row_a, row_n]
        (map fix_row [row_a2, row_n2, row_b]) = [row_a2, row_n2, row_b]"
proof -
  let ?wh = "\<lparr>dest = [row_a, row_n], tmp = None\<rparr>"
  let ?wh1 = "\<lparr>dest = [row_a2, row_n2, row_b], tmp = None\<rparr>"
  let ?rows = "[row_a2, row_n2, row_b]"
  have ne: "?rows \<noteq> []" by simp
  note all = upsert_subtitles_raw_merge [of default_dedupe_on ?wh ?rows,
      THEN conjunct2, THEN conjunct1, THEN spec, of ?wh1, THEN mp, OF conjI [OF ne sample_upsert]]
  then obtain ks
    where ks: "resolve_keys (dedupe_keys default_dedupe_on) = Some ks"
      and sp: "K_video_id \<in> set ks \<longrightarrow> dest ?wh1 = spec_merge ks (dest ?wh) (map fix_row ?rows)"
    by (elim exE conjE)
  from ks have k: "ks = [K_video_id, K_subtitle_lang]"
    by (simp only: default_resolved option.inject)
  have v: "K_video_id \<in> set [K_video_id, K_subtitle_lang]" by simp
  from sp [unfolded k, THEN mp, OF v]
  have m: "spec_merge [K_video_id, K_subtitle_lang] [row_a, row_n] (map fix_row ?rows) = ?rows"
    by (simp only: warehouse.simps)
  from ne sample_upsert v m show ?thesis by (intro conjI)
qed

text \<open>
  The statement sets every column but \<open>video_id\<close>.  With the key list
  \<open>subtitle_lang\<close> the column \<open>video_id\<close> is no key, and a matched row keeps its own
  \<open>video_id\<close> where the merge of the specification takes that of the staged row.
\<close>

theorem upsert_video_id_counterexample:
  "upsert_subtitles_raw [row_b] ''subtitle_lang'' \<lparr>dest = [row_a], tmp = None\<rparr> =
     (None, \<lparr>dest = [row_b\<lparr>raw_video_id := ''v1''\<rparr>], tmp = None\<rparr>)
   \<and> resolve_keys (dedupe_keys ''subtitle_lang'') = Some [K_subtitle_lang]
   \<and> spec_merge [K_subtitle_lang] [row_a] (map fix_row [row_b]) = [row_b]
   \<and> row_b\<lparr>raw_video_id := ''v1''\<rparr> \<noteq> row_b"
  by (simp add: lang_upsert lang_key) (simp add: row_b_def)




section \<open>Properties of the second acquisition\<close>

text \<open>
  The parser of \<open>yt_subtitles.py\<close> numbers the events it keeps from zero, without a
  gap and with a text that is not empty, like the parser of \<open>p04_fetch_subtitles.py\<close>;
  but it keeps the newlines within a text, and it keeps an event only if the event
  has an entry \<open>tStartMs\<close>.
\<close>

lemma snippets_loop_eq:
  "snippets_loop es (i, out) =
     (i + length (filter kept es), out @ number_snippets i (filter kept es))"
  by (induction es arbitrary: i out) (auto simp: kept_def event_snippet_def)

lemma events_to_snippets_kept:
  "events_to_snippets (Object (Some es)) = Inr (number_snippets 0 (filter kept es))"
  by (simp add: events_to_snippets_def snippets_loop_eq)

lemma number_snippets_idx:
  "map sn_idx (number_snippets i es) = map (\<lambda>k. Some (int k)) [i..<i + length es]"
  by (induction es arbitrary: i) (simp_all add: event_snippet_def upt_rec)

lemma number_snippets_text:
  "map sn_text (number_snippets i es) = map (\<lambda>e. Some (snippet_text e)) es"
  by (induction es arbitrary: i) (simp_all add: event_snippet_def)

lemma strip_empty_iff: "strip s = [] \<longleftrightarrow> (\<forall>c \<in> set s. isspace c)"
proof
  assume "strip s = []"
  then have a: "\<forall>c \<in> set (dropWhile isspace s). isspace c"
    by (simp add: strip_def rstrip_def lstrip_def)
  have "dropWhile isspace s = []"
  proof (rule ccontr)
    assume n: "dropWhile isspace s \<noteq> []"
    then have "\<not> isspace (hd (dropWhile isspace s))" by (rule hd_dropWhile)
    with a n show False by simp
  qed
  then show "\<forall>c \<in> set s. isspace c" by simp
next
  assume "\<forall>c \<in> set s. isspace c"
  then have h: "dropWhile isspace s = []" by simp
  show "strip s = []" unfolding strip_def rstrip_def lstrip_def h by simp
qed

lemma all_isspace_replace_nl: "(\<forall>c \<in> set (replace_nl s). isspace c) \<longleftrightarrow> (\<forall>c \<in> set s. isspace c)"
  by (induction s) (simp_all add: replace_nl_def isspace_def)

lemma event_text_empty_iff: "event_text e = [] \<longleftrightarrow> snippet_text e = []"
  unfolding event_text_def snippet_text_def strip_empty_iff all_isspace_replace_nl ..

lemma kept_iff_retained: "kept e \<longleftrightarrow> retained e \<and> tStartMs e \<noteq> None"
  by (auto simp: kept_def retained_def event_text_empty_iff)

lemma kept_needs_start:
  "\<not> kept \<lparr>segs = Some [\<lparr>utf8 = Some ''yo''\<rparr>], tStartMs = None, dDurationMs = Some 20\<rparr>
   \<and> retained \<lparr>segs = Some [\<lparr>utf8 = Some ''yo''\<rparr>], tStartMs = None, dDurationMs = Some 20\<rparr>"
  by (simp add: kept_def retained_def seg_list_of_def event_text_def strip_def lstrip_def
      rstrip_def replace_nl_def isspace_def)

text \<open>
  \<open>get_subtitles\<close> returns a row for every video identifier and every behaviour of
  its world: each of its two calls to the outside stands in a \<open>try\<close> block, and a
  failure becomes a row with an entry in \<open>errors\<close>.
\<close>

lemma get_subtitles_returns: "\<exists>row w1. get_subtitles yw vid pref_langs w = (Inr row, w1)"
  unfolding get_subtitles_def Let_def
  by (auto split: prod.splits sum.splits)

section \<open>Properties of the merges of the subtitle tables\<close>

text \<open>
  The merge of the segments only inserts, so merging a batch again changes
  nothing.  The merge of the full texts succeeds, and succeeds again without a
  change, for a batch no two rows of which have the same video and language; with
  such two rows it inserts both into an empty table and fails the second time.
\<close>

lemma merge_segments_again: "merge_segments (merge_segments dst stg) stg = merge_segments dst stg"
proof -
  have "list_ex (\<lambda>t. seg_on t s) (merge_segments dst stg)" if "s \<in> set stg" for s
  proof (cases "list_ex (\<lambda>t. seg_on t s) dst")
    case True
    then show ?thesis by (auto simp: merge_segments_def list_ex_iff)
  next
    case False
    with that have "s \<in> set (merge_segments dst stg)" by (simp add: merge_segments_def)
    moreover have "seg_on s s" by (simp add: seg_on_def)
    ultimately show ?thesis unfolding list_ex_iff by blast
  qed
  then have "filter (\<lambda>s. \<not> list_ex (\<lambda>t. seg_on t s) (merge_segments dst stg)) stg = []"
    by (simp add: filter_empty_conv)
  then show ?thesis by (simp add: merge_segments_def [of "merge_segments dst stg"])
qed

lemma full_on_refl: "full_on s s"
  by (simp add: full_on_def)

lemma full_on_sym: "full_on t s \<Longrightarrow> full_on s t"
  by (simp add: full_on_def)

lemma full_on_trans: "full_on a b \<Longrightarrow> full_on b c \<Longrightarrow> full_on a c"
  by (simp add: full_on_def)

lemma full_on_update: "full_on (t\<lparr>full_text := x\<rparr>) = full_on t"
  by (simp add: fun_eq_iff full_on_def)

lemma distinct_full_same:
  "distinct_full S \<Longrightarrow> a \<in> set S \<Longrightarrow> b \<in> set S \<Longrightarrow> full_on a b \<Longrightarrow> a = b"
  by (induction S) (auto simp: list_ex_iff dest: full_on_sym)

lemma distinct_full_filter:
  assumes "distinct_full S"
  shows "length (filter (full_on t) S) \<le> 1"
  using assms
proof (induction S)
  case Nil
  then show ?case by simp
next
  case (Cons r rs)
  show ?case
  proof (cases "full_on t r")
    case True
    have "filter (full_on t) rs = []"
    proof (rule ccontr)
      assume "filter (full_on t) rs \<noteq> []"
      then obtain r' where r': "r' \<in> set rs" "full_on t r'"
        by (metis filter_False)
      from True r'(2) have "full_on r r'"
        by (blast intro: full_on_sym full_on_trans)
      with r'(1) Cons.prems show False by (auto simp: list_ex_iff)
    qed
    with True show ?thesis by simp
  next
    case False
    with Cons show ?thesis by simp
  qed
qed

lemma merge_full_succeeds:
  assumes "distinct_full stg"
  shows "merge_full dst stg =
     Inr (map (\<lambda>t. case find (full_on t) stg of
                      None \<Rightarrow> t
                    | Some s \<Rightarrow> t\<lparr>full_text := full_text s\<rparr>) dst
          @ filter (\<lambda>s. \<not> list_ex (\<lambda>t. full_on t s) dst) stg)"
proof -
  have "\<not> list_ex (\<lambda>t. 1 < length (filter (full_on t) stg)) dst"
    using distinct_full_filter [OF assms] by (auto simp: list_ex_iff not_less)
  then show ?thesis by (simp add: merge_full_def)
qed

lemma merge_full_again:
  assumes d: "distinct_full stg" and m: "merge_full dst stg = Inr dst1"
  shows "merge_full dst1 stg = Inr dst1"
proof -
  let ?U = "\<lambda>t. case find (full_on t) stg of None \<Rightarrow> t | Some s \<Rightarrow> t\<lparr>full_text := full_text s\<rparr>"
  let ?I = "filter (\<lambda>s. \<not> list_ex (\<lambda>t. full_on t s) dst) stg"
  from m merge_full_succeeds [OF d, of dst] have dst1: "dst1 = map ?U dst @ ?I" by simp
  have U_U: "?U (?U t) = ?U t" for t
    by (cases "find (full_on t) stg") (simp_all add: full_on_update)
  have U_ins: "?U s = s" if "s \<in> set stg" for s
  proof (cases "find (full_on s) stg")
    case None
    then show ?thesis by simp
  next
    case (Some s')
    then have "full_on s s'" "s' \<in> set stg"
      by (auto simp: find_Some_iff)
    with distinct_full_same [OF d that] have "s = s'" by blast
    with Some show ?thesis by simp
  qed
  have fixed: "map ?U (map ?U dst @ ?I) = map ?U dst @ ?I"
    by (simp add: U_U comp_def) (rule map_idI, simp add: U_ins)
  have matched: "list_ex (\<lambda>t. full_on t s) (map ?U dst @ ?I)" if s: "s \<in> set stg" for s
  proof (cases "list_ex (\<lambda>t. full_on t s) dst")
    case True
    then obtain t where t: "t \<in> set dst" "full_on t s" by (auto simp: list_ex_iff)
    have "full_on (?U t) = full_on t"
      by (cases "find (full_on t) stg") (simp_all add: full_on_update)
    with t(2) have "full_on (?U t) s" by simp
    with t(1) show ?thesis by (auto simp: list_ex_iff)
  next
    case False
    with s have "s \<in> set ?I" by simp
    then show ?thesis using full_on_refl [of s] by (auto simp: list_ex_iff simp del: set_filter)
  qed
  have none: "filter (\<lambda>s. \<not> list_ex (\<lambda>t. full_on t s) (map ?U dst @ ?I)) stg = []"
    using matched by (simp add: filter_empty_conv)
  show ?thesis
    unfolding merge_full_succeeds [OF d] dst1 fixed none by simp
qed

lemma merge_full_duplicate:
  "merge_full [] [full_x, full_x] = Inr [full_x, full_x]"
  "merge_full [full_x, full_x] [full_x, full_x] = Inl (OtherException ''BadRequest'')"
  by (simp_all add: merge_full_def full_on_def)

end
